theory Spec2Isabelle
  imports Complex_Main
begin

section \<open>The upsc sensor of sensor\_exporter (package sensor\_upsc)\<close>

text \<open>
  The package has two operations, \<open>NewSensor\<close> and \<open>Scrape\<close>, and three tables. Both
  operations talk to the world through the Go standard library: they dial a TCP connection,
  read lines from it, compile and run a regular expression, parse a floating-point number
  and write log lines. Strings are Go strings, that is, byte sequences: \<open>string\<close> here.
\<close>

subsection \<open>Values of the Go runtime\<close>

text \<open>An \<open>error\<close> is represented by the text its \<open>Error()\<close> method returns.\<close>

type_synonym error = string

text \<open>
  A \<open>float64\<close>: a finite value is given by the rational number it denotes (zero with the
  sign bit set apart), next to the two infinities and not-a-number.
\<close>

datatype float64 = Num rat | NegZero | PosInf | NegInf | NaN

text \<open>
  The bytes a connection delivers, as the peer decides: one more byte, the end of the
  stream with the error the read reports (end of file, reset), or nothing more while the
  connection stays open. The stream may go on forever.
\<close>

codatatype wire = Byte char wire | Closed error | Silent

text \<open>
  \<open>bufio.Reader.ReadString\<close>: read up to and including the first occurrence of the
  delimiter. The result is the data and the error, with the reader advanced. When the stream
  ends first, the data read so far is returned with the stream's error. No deadline is set
  on the connection, so on a peer that stays silent, or that never sends the delimiter,
  the call does not return: the value \<open>None\<close>.
\<close>

partial_function (option) ReadString_acc ::
  "string \<Rightarrow> wire \<Rightarrow> char \<Rightarrow> ((string \<times> error option) \<times> wire) option" where
  "ReadString_acc acc r delim =
     (case r of
        Byte c r' \<Rightarrow>
          if c = delim then Some ((acc @ [c], None), r')
          else ReadString_acc (acc @ [c]) r' delim
      | Closed e \<Rightarrow> Some ((acc, Some e), Closed e)
      | Silent \<Rightarrow> None)"

definition ReadString :: "wire \<Rightarrow> char \<Rightarrow> ((string \<times> error option) \<times> wire) option" where
  "ReadString r delim = ReadString_acc [] r delim"

text \<open>A connection that delivers the given bytes and then behaves as \<open>r\<close>.\<close>

primrec wire_of :: "string \<Rightarrow> wire \<Rightarrow> wire" where
  "wire_of [] r = r"
| "wire_of (c # cs) r = Byte c (wire_of cs r)"

text \<open>
  \<open>strings.Split\<close> for a separator of one byte (the two separators of this package are
  \<open>@\<close> and \<open>:\<close>): the pieces between the occurrences of the separator, at least one.
\<close>

primrec Split :: "string \<Rightarrow> char \<Rightarrow> string list" where
  "Split [] sep = [[]]"
| "Split (c # cs) sep =
     (if c = sep then [] # Split cs sep
      else (case Split cs sep of [] \<Rightarrow> [[c]] | p # ps \<Rightarrow> (c # p) # ps))"

text \<open>
  The verb \<open>%.2f\<close> of \<open>fmt\<close>: the value in decimal with two digits after the point,
  rounded to nearest with ties to even.
\<close>

fun digits :: "nat \<Rightarrow> string" where
  "digits n =
     (if n < 10 then [''0123456789'' ! n]
      else digits (n div 10) @ [''0123456789'' ! (n mod 10)])"

definition round_even :: "rat \<Rightarrow> int" where
  "round_even q =
     (let f = \<lfloor>q\<rfloor>; r = q - of_int f
      in if r < 1 / 2 then f else if 1 / 2 < r then f + 1 else if even f then f else f + 1)"

definition fixed2 :: "rat \<Rightarrow> string" where
  "fixed2 q =
     (let h = nat (round_even (q * 100))
      in digits (h div 100) @ ''.'' @ [''0123456789'' ! (h mod 100 div 10), ''0123456789'' ! (h mod 10)])"

fun fmt_2f :: "float64 \<Rightarrow> string" where
  "fmt_2f (Num q) = (if q < 0 then ''-'' @ fixed2 (- q) else fixed2 q)"
| "fmt_2f NegZero = ''-0.00''"
| "fmt_2f PosInf = ''+Inf''"
| "fmt_2f NegInf = ''-Inf''"
| "fmt_2f NaN = ''NaN''"

text \<open>
  The rest of the library is a parameter of the model: the compiler and the matcher of
  package \<open>regexp\<close> over a type \<open>'re\<close> of compiled expressions
  (\<open>FindStringSubmatch\<close> gives the match and its groups, or the empty list),
  \<open>strconv.ParseFloat\<close> at 64 bits, and \<open>net.DialTimeout\<close>, which says for a
  network, an address and a timeout in nanoseconds what the connection attempt gives.
\<close>

record 're golib =
  regexp_Compile :: "string \<Rightarrow> error + 're"
  FindStringSubmatch :: "'re \<Rightarrow> string \<Rightarrow> string list"
  ParseFloat :: "string \<Rightarrow> error + float64"
  DialTimeout :: "string \<Rightarrow> string \<Rightarrow> int \<Rightarrow> error + wire"

subsection \<open>The process: incident counter and log\<close>

record world =
  IncidentCount :: int
  Log :: "string list"

text \<open>
  Modelled from the spec: \<open>sensor.Incident\<close> is in package \<open>sensor\<close>, which is not
  among the sources. The spec has a single process-wide integer, incremented on every
  recoverable failure.
\<close>

definition Incident :: "world \<Rightarrow> world" where
  "Incident st = st\<lparr>IncidentCount := IncidentCount st + 1\<rparr>"

text \<open>\<open>log.Printf\<close>, with the message already formatted.\<close>

definition Printf :: "string \<Rightarrow> world \<Rightarrow> world" where
  "Printf msg st = st\<lparr>Log := Log st @ [msg]\<rparr>"

subsection \<open>The tables\<close>

definition Second :: int where
  "Second = 1000000000"

definition timeOut :: int where
  "timeOut = 10 * Second"

definition upscVarFloat :: "string \<rightharpoonup> string" where
  "upscVarFloat = map_of
    [(''battery.charge'', ''upsc_battery_charge''),
     (''battery.charge.low'', ''upsc_battery_charge_low''),
     (''battery.voltage'', ''upsc_battery_voltage''),
     (''battery.voltage.high'', ''upsc_battery_voltage_high''),
     (''battery.voltage.low'', ''upsc_battery_voltage_low''),
     (''battery.voltage.nominal'', ''upsc_battery_voltage_nominal''),
     (''input.frequency'', ''upsc_input_frequency''),
     (''input.frequency.nominal'', ''upsc_input_frequency_nominal''),
     (''input.voltage'', ''upsc_input_voltage''),
     (''input.voltage.fault'', ''upsc_input_voltage_fault''),
     (''input.voltage.nominal'', ''upsc_input_voltage_nominal''),
     (''input.current'', ''upsc_input_current''),
     (''output.voltage'', ''upsc_output_voltage''),
     (''ups.beeper.status'', ''upsc_ups_beeper_enabled''),
     (''ups.delay.shutdown'', ''upsc_ups_delay_shutdown''),
     (''ups.delay.start'', ''upsc_ups_delay_start''),
     (''ups.load'', ''upsc_ups_load''),
     (''ups.status'', ''upsc_ups_online''),
     (''ups.temperature'', ''upsc_ups_temperature'')]"

definition sensorStringMapping :: "string \<rightharpoonup> float64" where
  "sensorStringMapping = map_of
    [(''enabled'', Num 1),
     (''disabled'', Num 0),
     (''OL'', Num 2),
     (''FSD OL'', Num (3 / 2)),
     (''OB'', Num 1),
     (''FSD OB'', Num (1 / 2)),
     (''LB'', Num 0)]"

subsection \<open>NewSensor\<close>

record 're Sensor =
  Labels :: string
  Host :: string
  Ups :: string
  Re :: 're
  BeginToken :: string
  EndToken :: string

text \<open>
  The switch on the number of pieces of the options: labels, host and device name, or
  \<open>None\<close> in the default case. \<open>hostParts ! 0\<close> is in range, since \<open>Split\<close> gives at
  least one piece.
\<close>

definition NewSensor_conf :: "string \<Rightarrow> (string \<times> string \<times> string) option" where
  \<open>NewSensor_conf opts =
     (case Split opts CHR ''@'' of
        [c0, c1] \<Rightarrow>
          (let ups = c0;
               host = c1;
               hostParts = Split host CHR '':'';
               host = (if length hostParts = 1 then host @ '':3493'' else host);
               labels = ''{ups="'' @ ups @ ''",host="'' @ hostParts ! 0 @ ''"}''
           in Some (labels, host, ups))
      | [c0] \<Rightarrow>
          (let labels = ''{ups="'' @ c0 @ ''"}'';
               ups = c0;
               host = ''localhost:3493''
           in Some (labels, host, ups))
      | _ \<Rightarrow> None)\<close>

definition NewSensor :: "'re golib \<Rightarrow> string \<Rightarrow> world \<Rightarrow> (error + 're Sensor) \<times> world" where
  \<open>NewSensor G opts st =
     (case NewSensor_conf opts of
        None \<Rightarrow>
          (Inl (''Upsc, could not understand UPS URI. Empty or too many '' @ [CHR 0x27] @ ''@''
                @ [CHR 0x27] @ ''?. Opts: '' @ opts), st)
      | Some (labels, host, ups) \<Rightarrow>
          (let reString = ''VAR '' @ ups @ '' ([a-zA-Z.]*) "(.*)"''
           in case regexp_Compile G reString of
                Inl err \<Rightarrow>
                  (Inl (''Upsc, could not compile regural expression: '' @ reString
                        @ ''. Err: '' @ err), st)
              | Inr re \<Rightarrow>
                  (let st' =
                     (case DialTimeout G ''tcp'' host timeOut of
                        Inl err \<Rightarrow>
                          Printf (''Adding upsc sensor at '' @ host
                                  @ '' but could not connect to remote.\<newline>'') st
                      | Inr conn \<Rightarrow> st)
                   in (Inr \<lparr>Labels = labels, Host = host, Ups = ups, Re = re,
                             BeginToken = ''BEGIN LIST VAR '' @ ups @ ''\<newline>'',
                             EndToken = ''END LIST VAR '' @ ups @ ''\<newline>''\<rparr>, st'))))\<close>

subsection \<open>Scrape\<close>

text \<open>
  The body of the loop between the read and the test for the end token: the output with
  the line of this reading appended, or the field and the error of a value that does not
  parse (the \<open>break\<close>).
\<close>

definition Scrape_line :: "'re golib \<Rightarrow> 're Sensor \<Rightarrow> string \<Rightarrow> string \<Rightarrow> (string \<times> error) + string" where
  \<open>Scrape_line G s res out =
     (case FindStringSubmatch G (Re s) res of
        [v0, v1, v2] \<Rightarrow>
          (case upscVarFloat v1 of
             Some value \<Rightarrow>
               (case sensorStringMapping v2 of
                  Some mapping \<Rightarrow>
                    Inr (out @ value @ Labels s @ '' '' @ fmt_2f mapping @ ''\<newline>'')
                | None \<Rightarrow>
                    (case ParseFloat G v2 of
                       Inl err \<Rightarrow> Inl (v1, err)
                     | Inr reading \<Rightarrow>
                         Inr (out @ value @ Labels s @ '' '' @ fmt_2f reading @ ''\<newline>'')))
           | None \<Rightarrow> Inr out)
      | _ \<Rightarrow> Inr out)\<close>

text \<open>
  The loop. A run that does not return is \<open>None\<close>; a run that returns gives the two
  results of \<open>Scrape\<close> and the process after it.
\<close>

partial_function (option) Scrape_loop ::
  "'re golib \<Rightarrow> 're Sensor \<Rightarrow> wire \<Rightarrow> string \<Rightarrow> world \<Rightarrow> ((string \<times> error option) \<times> world) option" where
  \<open>Scrape_loop G s reader out st =
     (case ReadString reader CHR 0x0A of
        None \<Rightarrow> None
      | Some ((res, Some err), reader') \<Rightarrow>
          Some (('''', None),
                Printf (''Upsc '' @ Ups s @ ''@'' @ Host s @ '', connection error while reading: ''
                        @ err @ ''\<newline>'') (Incident st))
      | Some ((res, None), reader') \<Rightarrow>
          (case Scrape_line G s res out of
             Inl (v1, err) \<Rightarrow>
               Some ((out, None),
                     Printf (''Upsc '' @ Ups s @ ''@'' @ Host s @ '', could not parse '' @ v1
                             @ ''. Error: '' @ err @ ''\<newline>'') (Incident st))
           | Inr out' \<Rightarrow>
               if res = EndToken s then Some ((out', None), st)
               else Scrape_loop G s reader' out' st))\<close>

text \<open>
  \<open>Scrape\<close> dials, writes the request \<open>LIST VAR\<close> with the device name, reads the
  first line and then runs the loop. The request and the deferred \<open>Close\<close> reach the peer
  only, and the result of the write is not looked at: what the peer sends on the connection
  is the stream that the dial gives. The timeout is an argument of the dial alone.
\<close>

definition Scrape :: "'re golib \<Rightarrow> 're Sensor \<Rightarrow> world \<Rightarrow> ((string \<times> error option) \<times> world) option" where
  \<open>Scrape G s st =
     (case DialTimeout G ''tcp'' (Host s) timeOut of
        Inl err \<Rightarrow>
          Some (('''', None),
                Printf (''Upsc '' @ Ups s @ ''@'' @ Host s @ '', failed to connect: '' @ err
                        @ ''\<newline>'') (Incident st))
      | Inr conn \<Rightarrow>
          (case ReadString conn CHR 0x0A of
             None \<Rightarrow> None
           | Some ((res, Some err), reader) \<Rightarrow>
               Some (('''', None),
                     Printf (''Upsc '' @ Ups s @ ''@'' @ Host s @ '', reading returned error: ''
                             @ err @ ''\<newline>'') (Incident st))
           | Some ((res, None), reader) \<Rightarrow>
               if res = ''ERR UNKNOWN-UPS'' then
                 Some (('''', None),
                       Printf (''Upsc '' @ Ups s @ ''@'' @ Host s
                               @ '', upsd daemon said "unknown ups".\<newline>'') (Incident st))
               else if res \<noteq> BeginToken s then
                 Some (('''', None),
                       Printf (''Upsc '' @ Ups s @ ''@'' @ Host s
                               @ '', upsd daemon returned unknown response: '' @ res
                               @ ''.\<newline>'') (Incident st))
               else Scrape_loop G s reader '''' st))\<close>

subsection \<open>Responses\<close>

text \<open>
  A line of a response: bytes without a newline, closed by one. The output that the loop
  has accumulated after the lines \<open>ls\<close>, as long as no value fails to parse, is that of
  running its body over them in turn.
\<close>

definition line :: "string \<Rightarrow> bool" where
  "line l = (l \<noteq> [] \<and> last l = CHR 0x0A \<and> CHR 0x0A \<notin> set (butlast l))"

fun accumulate :: "'re golib \<Rightarrow> 're Sensor \<Rightarrow> string list \<Rightarrow> string \<Rightarrow> (string \<times> error) + string" where
  "accumulate G s [] out = Inr out"
| "accumulate G s (l # ls) out =
     (case Scrape_line G s l out of
        Inl e \<Rightarrow> Inl e
      | Inr out' \<Rightarrow> accumulate G s ls out')"

subsection \<open>A model of the library\<close>

text \<open>
  Where a statement below needs the library at a concrete input, it takes this model of it.
  The regular expressions are those that \<open>NewSensor\<close> writes for a device name of letters,
  digits, \<open>_\<close> and \<open>-\<close>, which the expression syntax reads as themselves; every other
  expression is outside the model and is refused. For such an expression the leftmost match
  is unique: the field is the longest run of field bytes after the device name, and the
  value runs to the last double quote of the line.
\<close>

datatype upsc_re = UpscRe string

definition plain_byte :: "char \<Rightarrow> bool" where
  "plain_byte c = (c \<in> set ''abcdefghijklmnopqrstuvwxyzABCDEFGHIJKLMNOPQRSTUVWXYZ0123456789_-'')"

definition field_byte :: "char \<Rightarrow> bool" where
  "field_byte c = (c \<in> set ''abcdefghijklmnopqrstuvwxyzABCDEFGHIJKLMNOPQRSTUVWXYZ.'')"

fun strip_prefix :: "string \<Rightarrow> string \<Rightarrow> string option" where
  "strip_prefix [] t = Some t"
| "strip_prefix (c # cs) [] = None"
| "strip_prefix (c # cs) (d # ds) = (if c = d then strip_prefix cs ds else None)"

definition Compile_model :: "string \<Rightarrow> error + upsc_re" where
  \<open>Compile_model expr =
     (case strip_prefix ''VAR '' expr of
        None \<Rightarrow> Inl ''expression outside the model''
      | Some t \<Rightarrow>
          if dropWhile plain_byte t = '' ([a-zA-Z.]*) "(.*)"''
          then Inr (UpscRe (takeWhile plain_byte t))
          else Inl ''expression outside the model'')\<close>

definition match_here :: "string \<Rightarrow> string \<Rightarrow> string list" where
  \<open>match_here ups t =
     (case strip_prefix (''VAR '' @ ups @ '' '') t of
        None \<Rightarrow> []
      | Some t1 \<Rightarrow>
          (let v1 = takeWhile field_byte t1
           in case strip_prefix '' "'' (dropWhile field_byte t1) of
                None \<Rightarrow> []
              | Some t2 \<Rightarrow>
                  (let ln = takeWhile (\<lambda>c. c \<noteq> CHR 0x0A) t2
                   in if CHR 0x22 \<in> set ln
                      then (let v2 = rev (tl (dropWhile (\<lambda>c. c \<noteq> CHR 0x22) (rev ln)))
                            in [''VAR '' @ ups @ '' '' @ v1 @ '' "'' @ v2 @ ''"'', v1, v2])
                      else [])))\<close>

fun FindStringSubmatch_model :: "upsc_re \<Rightarrow> string \<Rightarrow> string list" where
  "FindStringSubmatch_model (UpscRe ups) [] = match_here ups []"
| "FindStringSubmatch_model (UpscRe ups) (c # cs) =
     (case match_here ups (c # cs) of
        [] \<Rightarrow> FindStringSubmatch_model (UpscRe ups) cs
      | v \<Rightarrow> v)"

text \<open>
  \<open>strconv.ParseFloat\<close> on decimal literals: an optional sign, digits with an optional
  point, an optional decimal exponent, and the names of the infinities and of not-a-number.
  The value is the binary64 number nearest to the literal, ties to even; a literal that
  rounds beyond the largest finite number is out of range. Hexadecimal literals and digit
  separators, which later releases of the library read as well, are outside the model.
\<close>

definition is_digit :: "char \<Rightarrow> bool" where
  "is_digit c = (c \<in> set ''0123456789'')"

definition digit_val :: "char \<Rightarrow> int" where
  "digit_val c = (case map_of (zip ''0123456789'' [0, 1, 2, 3, 4, 5, 6, 7, 8, 9]) c of Some d \<Rightarrow> d | None \<Rightarrow> 0)"

definition decimal :: "string \<Rightarrow> int" where
  "decimal ds = foldl (\<lambda>n c. 10 * n + digit_val c) 0 ds"

definition lower :: "char \<Rightarrow> char" where
  "lower c =
     (case map_of (zip ''ABCDEFGHIJKLMNOPQRSTUVWXYZ'' ''abcdefghijklmnopqrstuvwxyz'') c of
        Some l \<Rightarrow> l
      | None \<Rightarrow> c)"

definition special :: "string \<Rightarrow> float64 option" where
  "special s =
     (let l = map lower s
      in if l \<in> {''inf'', ''infinity'', ''+inf'', ''+infinity''} then Some PosInf
         else if l \<in> {''-inf'', ''-infinity''} then Some NegInf
         else if l = ''nan'' then Some NaN
         else None)"

function bitlen :: "int \<Rightarrow> nat" where
  "bitlen n = (if n \<le> 0 then 0 else Suc (bitlen (n div 2)))"
  by pat_completeness auto
termination
  by (relation "measure nat") auto

definition ilog2 :: "int \<Rightarrow> int \<Rightarrow> int" where
  "ilog2 n d =
     (let k = int (bitlen n) - int (bitlen d)
      in if d * 2 ^ nat k \<le> n * 2 ^ nat (- k) then k else k - 1)"

definition nearest_even :: "int \<Rightarrow> int \<Rightarrow> int" where
  "nearest_even n d =
     (let q = n div d; r = n mod d
      in if 2 * r < d then q else if d < 2 * r then q + 1 else if even q then q else q + 1)"

definition to_float64 :: "bool \<Rightarrow> int \<Rightarrow> int \<Rightarrow> float64 option" where
  "to_float64 neg n d =
     (if n = 0 then Some (if neg then NegZero else Num 0)
      else
        (let p = 52 - max (ilog2 n d) (- 1022);
             m = nearest_even (n * 2 ^ nat p) (d * 2 ^ nat (- p));
             v = (of_int m * 2 ^ nat (- p) / 2 ^ nat p :: rat)
         in if 1024 \<le> ilog2 n d \<or> ilog2 n d = 1023 \<and> m = 2 ^ 53 then None
            else if m = 0 then Some (if neg then NegZero else Num 0)
            else Some (Num (if neg then - v else v))))"

definition exponent :: "string \<Rightarrow> int option" where
  "exponent t =
     (case t of
        [] \<Rightarrow> Some 0
      | c # t1 \<Rightarrow>
          if c = CHR ''e'' \<or> c = CHR ''E'' then
            (let neg = (case t1 of [] \<Rightarrow> False | x # _ \<Rightarrow> x = CHR ''-'');
                 t2 = (case t1 of [] \<Rightarrow> [] | x # xs \<Rightarrow> if x = CHR ''+'' \<or> x = CHR ''-'' then xs else t1)
             in if t2 \<noteq> [] \<and> list_all is_digit t2
                then Some (if neg then - decimal t2 else decimal t2)
                else None)
          else None)"

definition ParseFloat_model :: "string \<Rightarrow> error + float64" where
  \<open>ParseFloat_model s =
     (case special s of
        Some f \<Rightarrow> Inr f
      | None \<Rightarrow>
          (let neg = (case s of [] \<Rightarrow> False | x # _ \<Rightarrow> x = CHR ''-'');
               t = (case s of [] \<Rightarrow> [] | x # xs \<Rightarrow> if x = CHR ''+'' \<or> x = CHR ''-'' then xs else s);
               ip = takeWhile is_digit t;
               t1 = dropWhile is_digit t;
               fp = (case t1 of [] \<Rightarrow> [] | x # xs \<Rightarrow> if x = CHR ''.'' then takeWhile is_digit xs else []);
               t2 = (case t1 of [] \<Rightarrow> [] | x # xs \<Rightarrow> if x = CHR ''.'' then dropWhile is_digit xs else t1)
           in if ip = [] \<and> fp = [] then
                Inl (''strconv.ParseFloat: parsing "'' @ s @ ''": invalid syntax'')
              else
                (case exponent t2 of
                   None \<Rightarrow> Inl (''strconv.ParseFloat: parsing "'' @ s @ ''": invalid syntax'')
                 | Some e \<Rightarrow>
                     (let x = e - int (length fp)
                      in case to_float64 neg (decimal (ip @ fp) * 10 ^ nat x) (10 ^ nat (- x)) of
                           None \<Rightarrow> Inl (''strconv.ParseFloat: parsing "'' @ s @ ''": value out of range'')
                         | Some f \<Rightarrow> Inr f))))\<close>

definition golib_model :: "(string \<Rightarrow> error + wire) \<Rightarrow> upsc_re golib" where
  "golib_model net =
     \<lparr>regexp_Compile = Compile_model,
      FindStringSubmatch = FindStringSubmatch_model,
      ParseFloat = ParseFloat_model,
      DialTimeout = (\<lambda>network address timeout. net address)\<rparr>"

subsection \<open>Concrete runs\<close>

text \<open>
  The sensor that \<open>NewSensor\<close> builds for the options \<open>dev\<close>, an empty process, a network
  that refuses every connection, and one where the peer sends the given bytes and closes.
\<close>

definition dev_sensor :: "upsc_re Sensor" where
  \<open>dev_sensor =
     \<lparr>Labels = ''{ups="dev"}'', Host = ''localhost:3493'', Ups = ''dev'', Re = UpscRe ''dev'',
      BeginToken = ''BEGIN LIST VAR dev\<newline>'', EndToken = ''END LIST VAR dev\<newline>''\<rparr>\<close>

definition world0 :: world where
  "world0 = \<lparr>IncidentCount = 0, Log = []\<rparr>"

definition refusing :: "string \<Rightarrow> error + wire" where
  "refusing address = Inl ''dial tcp 127.0.0.1:3493: connect: connection refused''"

definition serving :: "string \<Rightarrow> string \<Rightarrow> error + wire" where
  "serving bytes address = Inr (wire_of bytes (Closed ''EOF''))"

definition silent :: "string \<Rightarrow> error + wire" where
  "silent address = Inr Silent"

text \<open>
  A network where the peer sends the given bytes and then keeps the connection open
  without sending any more.
\<close>

definition holding :: "string \<Rightarrow> string \<Rightarrow> error + wire" where
  "holding bytes address = Inr (wire_of bytes Silent)"

text \<open>
  A peer that sends the bytes \<open>cur\<close> and then the bytes \<open>l\<close> again and again, without
  end, and a network where the peer answers the request with the begin token and then
  repeats one line of the list for ever.
\<close>

primcorec repeating :: "string \<Rightarrow> string \<Rightarrow> wire" where
  "repeating l cur =
     Byte (case cur of [] \<Rightarrow> (case l of [] \<Rightarrow> CHR 0x0A | c # cs \<Rightarrow> c) | c # cs \<Rightarrow> c)
          (repeating l (case cur of [] \<Rightarrow> (case l of [] \<Rightarrow> [] | c # cs \<Rightarrow> cs) | c # cs \<Rightarrow> cs))"

definition chattering :: "string \<Rightarrow> error + wire" where
  \<open>chattering address =
     Inr (wire_of ''BEGIN LIST VAR dev\<newline>'' (repeating ''VAR dev ups.load "14"\<newline>'' []))\<close>

section \<open>Reading lines\<close>

lemma ReadString_acc_ends_aux:
  assumes "ReadString_acc acc r d = Some y"
  shows "snd (fst y) = None \<longrightarrow> fst (fst y) \<noteq> [] \<and> last (fst (fst y)) = d"
proof (rule ReadString_acc.raw_induct
    [where P = "\<lambda>acc r d y. snd (fst y) = None \<longrightarrow> fst (fst y) \<noteq> [] \<and> last (fst (fst y)) = d",
      OF _ assms])
  fix rec :: "string \<Rightarrow> wire \<Rightarrow> char \<Rightarrow> ((string \<times> error option) \<times> wire) option"
    and acc r d y
  assume IH: "\<And>acc r d y. rec acc r d = Some y \<Longrightarrow>
                snd (fst y) = None \<longrightarrow> fst (fst y) \<noteq> [] \<and> last (fst (fst y)) = d"
    and step: "(case r of
                  Byte c r' \<Rightarrow>
                    if c = d then Some ((acc @ [c], None), r') else rec (acc @ [c]) r' d
                | Closed e \<Rightarrow> Some ((acc, Some e), Closed e)
                | Silent \<Rightarrow> None) = Some y"
  show "snd (fst y) = None \<longrightarrow> fst (fst y) \<noteq> [] \<and> last (fst (fst y)) = d"
  proof (cases r)
    case (Byte c r')
    then show ?thesis using step IH [of "acc @ [c]" r' d y] by (auto split: if_splits)
  next
    case (Closed e)
    then show ?thesis using step by auto
  next
    case Silent
    then show ?thesis using step by simp
  qed
qed

lemma takeWhile_upto:
  "d \<notin> set l \<Longrightarrow> takeWhile (\<lambda>c. c \<noteq> d) (l @ d # bs) = l"
  by (induction l) auto

lemma dropWhile_upto:
  "d \<notin> set l \<Longrightarrow> dropWhile (\<lambda>c. c \<noteq> d) (l @ d # bs) = d # bs"
  by (induction l) auto

lemma takeWhile_all:
  "d \<notin> set l \<Longrightarrow> takeWhile (\<lambda>c. c \<noteq> d) l = l"
  by (induction l) auto

lemma ReadString_acc_wire_of:
  "ReadString_acc acc (wire_of bs r) d =
     (if d \<in> set bs
      then Some ((acc @ takeWhile (\<lambda>c. c \<noteq> d) bs @ [d], None),
                 wire_of (tl (dropWhile (\<lambda>c. c \<noteq> d) bs)) r)
      else ReadString_acc (acc @ bs) r d)"
proof (induction bs arbitrary: acc)
  case Nil
  show ?case by simp
next
  case (Cons b bs)
  show ?case
    by (subst ReadString_acc.simps) (simp add: Cons.IH)
qed

lemma ReadString_upto:
  assumes "d \<notin> set l"
  shows "ReadString (wire_of (l @ d # bs) r) d = Some ((l @ [d], None), wire_of bs r)"
  using assms by (simp add: ReadString_def ReadString_acc_wire_of takeWhile_upto dropWhile_upto)

lemma ReadString_Closed:
  assumes "d \<notin> set bs"
  shows "ReadString (wire_of bs (Closed e)) d = Some ((bs, Some e), Closed e)"
  using assms by (simp add: ReadString_def ReadString_acc_wire_of) (simp add: ReadString_acc.simps)

lemma ReadString_Silent:
  assumes "d \<notin> set bs"
  shows "ReadString (wire_of bs Silent) d = None"
  using assms by (simp add: ReadString_def ReadString_acc_wire_of) (simp add: ReadString_acc.simps)

lemma ReadString_ends:
  assumes "ReadString r d = Some ((res, None), r')"
  shows "res \<noteq> [] \<and> last res = d"
  using ReadString_acc_ends_aux [of "[]" r d "((res, None), r')"] assms
  by (simp add: ReadString_def)

lemma ReadString_line:
  assumes "line l"
  shows "ReadString (wire_of (l @ bs) r) CHR 0x0A = Some ((l, None), wire_of bs r)"
proof -
  from assms have l: "l = butlast l @ [CHR 0x0A]" and nl: "CHR 0x0A \<notin> set (butlast l)"
    by (auto simp: line_def dest: append_butlast_last_id)
  have "ReadString (wire_of (butlast l @ CHR 0x0A # bs) r) CHR 0x0A
          = Some ((butlast l @ [CHR 0x0A], None), wire_of bs r)"
    using nl by (rule ReadString_upto)
  moreover have "butlast l @ CHR 0x0A # bs = l @ bs"
    using l by (metis append_Cons append_Nil append_assoc)
  ultimately show ?thesis using l by simp
qed

lemma Scrape_loop_step:
  assumes "ReadString reader CHR 0x0A = Some ((res, None), reader')"
  shows "Scrape_loop G s reader out st =
           (case Scrape_line G s res out of
              Inl (v1, err) \<Rightarrow>
                Some ((out, None),
                      Printf (''Upsc '' @ Ups s @ ''@'' @ Host s @ '', could not parse '' @ v1
                              @ ''. Error: '' @ err @ ''\<newline>'') (Incident st))
            | Inr out' \<Rightarrow>
                if res = EndToken s then Some ((out', None), st)
                else Scrape_loop G s reader' out' st)"
  by (subst Scrape_loop.simps) (simp add: assms)

lemma Scrape_loop_lines:
  assumes "\<forall>l \<in> set ls. line l \<and> l \<noteq> EndToken s"
    and "accumulate G s ls out = Inr out'"
  shows "Scrape_loop G s (wire_of (concat ls @ bs) r) out st = Scrape_loop G s (wire_of bs r) out' st"
  using assms
proof (induction ls arbitrary: out)
  case Nil
  then show ?case by simp
next
  case (Cons l ls)
  from Cons.prems obtain o1 where o1: "Scrape_line G s l out = Inr o1"
    and rest: "accumulate G s ls o1 = Inr out'"
    by (auto split: sum.splits)
  from Cons.prems have l: "line l" "l \<noteq> EndToken s" and ls: "\<forall>l \<in> set ls. line l \<and> l \<noteq> EndToken s"
    by auto
  have "ReadString (wire_of (l @ concat ls @ bs) r) CHR 0x0A = Some ((l, None), wire_of (concat ls @ bs) r)"
    using l(1) by (rule ReadString_line)
  then have "Scrape_loop G s (wire_of (concat (l # ls) @ bs) r) out st
               = Scrape_loop G s (wire_of (concat ls @ bs) r) o1 st"
    using o1 l(2) by (simp add: Scrape_loop_step)
  then show ?case using Cons.IH [OF ls rest] by simp
qed

lemma Scrape_begin:
  assumes "DialTimeout G ''tcp'' (Host s) timeOut = Inr (wire_of (BeginToken s @ bs) r)"
    and "line (BeginToken s)"
  shows "Scrape G s st = Scrape_loop G s (wire_of bs r) '''' st"
proof -
  have "ReadString (wire_of (BeginToken s @ bs) r) CHR 0x0A = Some ((BeginToken s, None), wire_of bs r)"
    using assms(2) by (rule ReadString_line)
  moreover have "BeginToken s \<noteq> ''ERR UNKNOWN-UPS''"
    using assms(2) by (auto simp: line_def)
  ultimately show ?thesis using assms(1) by (simp add: Scrape_def)
qed

section \<open>Failures of a scrape\<close>

text \<open>
  Claim C1. When the connection attempt fails, \<open>Scrape\<close> returns the empty string and a
  nil error, the incident counter is one more than before, and the failure is logged.
\<close>

theorem Scrape_connect_failure:
  assumes "DialTimeout G ''tcp'' (Host s) timeOut = Inl err"
  shows "Scrape G s st =
           Some (('''', None),
                 st\<lparr>IncidentCount := IncidentCount st + 1,
                    Log := Log st @ [''Upsc '' @ Ups s @ ''@'' @ Host s @ '', failed to connect: ''
                                     @ err @ ''\<newline>'']\<rparr>)"
  using assms by (simp add: Scrape_def Incident_def Printf_def)

theorem Scrape_connect_failure_witness:
  "Scrape (golib_model refusing) dev_sensor world0 =
     Some (('''', None),
           \<lparr>IncidentCount = 1,
            Log = [''Upsc dev@localhost:3493, failed to connect: dial tcp 127.0.0.1:3493: connect: connection refused\<newline>'']\<rparr>)"
  using Scrape_connect_failure
    [of "golib_model refusing" dev_sensor "''dial tcp 127.0.0.1:3493: connect: connection refused''" world0]
  by (simp add: golib_model_def refusing_def dev_sensor_def world0_def)

text \<open>
  Claim C2. The response begins with the begin token and goes on with lines \<open>ls\<close> that
  the loop processes, leaving the output \<open>out\<close>, and then with a line whose field is in
  \<open>upscVarFloat\<close> and whose value is not in \<open>sensorStringMapping\<close> and does not
  parse. Whatever follows that line, \<open>Scrape\<close> returns \<open>out\<close> with a nil error, and
  the incident counter is one more than before.
\<close>

theorem Scrape_parse_failure:
  assumes "DialTimeout G ''tcp'' (Host s) timeOut
             = Inr (wire_of (BeginToken s @ concat ls @ bad @ bs) r)"
    and "line (BeginToken s)"
    and "\<forall>l \<in> set ls. line l \<and> l \<noteq> EndToken s"
    and "accumulate G s ls '''' = Inr out"
    and "line bad"
    and "FindStringSubmatch G (Re s) bad = [v0, v1, v2]"
    and "upscVarFloat v1 = Some value"
    and "sensorStringMapping v2 = None"
    and "ParseFloat G v2 = Inl err"
  shows "Scrape G s st =
           Some ((out, None),
                 st\<lparr>IncidentCount := IncidentCount st + 1,
                    Log := Log st @ [''Upsc '' @ Ups s @ ''@'' @ Host s @ '', could not parse '' @ v1
                                     @ ''. Error: '' @ err @ ''\<newline>'']\<rparr>)"
proof -
  have "Scrape G s st = Scrape_loop G s (wire_of (concat ls @ bad @ bs) r) '''' st"
    using assms(1,2) by (rule Scrape_begin)
  also have "\<dots> = Scrape_loop G s (wire_of (bad @ bs) r) out st"
    using assms(3,4) by (rule Scrape_loop_lines)
  also have "\<dots> = Some ((out, None),
                 st\<lparr>IncidentCount := IncidentCount st + 1,
                    Log := Log st @ [''Upsc '' @ Ups s @ ''@'' @ Host s @ '', could not parse '' @ v1
                                     @ ''. Error: '' @ err @ ''\<newline>'']\<rparr>)"
  proof -
    have "ReadString (wire_of (bad @ bs) r) CHR 0x0A = Some ((bad, None), wire_of bs r)"
      using assms(5) by (rule ReadString_line)
    moreover have "Scrape_line G s bad out = Inl (v1, err)"
      using assms(6-9) by (simp add: Scrape_line_def)
    ultimately show ?thesis by (simp add: Scrape_loop_step Incident_def Printf_def)
  qed
  finally show ?thesis .
qed

theorem Scrape_parse_failure_witness:
  \<open>Scrape (golib_model (serving ''BEGIN LIST VAR dev\<newline>VAR dev battery.charge "42"\<newline>VAR dev ups.load "n/a"\<newline>VAR dev ups.status "OL"\<newline>END LIST VAR dev\<newline>''))
      dev_sensor world0 =
     Some ((''upsc_battery_charge{ups="dev"} 42.00\<newline>'', None),
           \<lparr>IncidentCount = 1,
            Log = [''Upsc dev@localhost:3493, could not parse ups.load. Error: strconv.ParseFloat: parsing "n/a": invalid syntax\<newline>'']\<rparr>)\<close>
proof -
  let ?G = \<open>golib_model (serving ''BEGIN LIST VAR dev\<newline>VAR dev battery.charge "42"\<newline>VAR dev ups.load "n/a"\<newline>VAR dev ups.status "OL"\<newline>END LIST VAR dev\<newline>'')\<close>
  let ?ls = \<open>[''VAR dev battery.charge "42"\<newline>'']\<close>
  let ?bad = \<open>''VAR dev ups.load "n/a"\<newline>''\<close>
  let ?bs = \<open>''VAR dev ups.status "OL"\<newline>END LIST VAR dev\<newline>''\<close>
  have 1: "DialTimeout ?G ''tcp'' (Host dev_sensor) timeOut
             = Inr (wire_of (BeginToken dev_sensor @ concat ?ls @ ?bad @ ?bs) (Closed ''EOF''))"
    by (simp add: golib_model_def serving_def dev_sensor_def)
  have 2: "line (BeginToken dev_sensor)"
    by (simp add: line_def dev_sensor_def)
  have 3: "\<forall>l \<in> set ?ls. line l \<and> l \<noteq> EndToken dev_sensor"
    by (simp add: line_def dev_sensor_def)
  have 4: \<open>accumulate ?G dev_sensor ?ls '''' = Inr ''upsc_battery_charge{ups="dev"} 42.00\<newline>''\<close>
    by code_simp
  have 5: "line ?bad"
    by (simp add: line_def)
  have 6: \<open>FindStringSubmatch ?G (Re dev_sensor) ?bad = [''VAR dev ups.load "n/a"'', ''ups.load'', ''n/a'']\<close>
    by code_simp
  have 7: "upscVarFloat ''ups.load'' = Some ''upsc_ups_load''"
    by (simp add: upscVarFloat_def)
  have 8: "sensorStringMapping ''n/a'' = None"
    by (simp add: sensorStringMapping_def)
  have 9: \<open>ParseFloat ?G ''n/a'' = Inl ''strconv.ParseFloat: parsing "n/a": invalid syntax''\<close>
    by code_simp
  show ?thesis
    using Scrape_parse_failure [OF 1 2 3 4 5 6 7 8 9, of world0]
    by (simp add: dev_sensor_def world0_def)
qed

lemma Scrape_loop_end:
  assumes "line (EndToken s)"
    and "Scrape_line G s (EndToken s) out = Inr out'"
  shows "Scrape_loop G s (wire_of (EndToken s @ bs) r) out st = Some ((out', None), st)"
proof -
  have "ReadString (wire_of (EndToken s @ bs) r) CHR 0x0A = Some ((EndToken s, None), wire_of bs r)"
    using assms(1) by (rule ReadString_line)
  then show ?thesis using assms(2) by (simp add: Scrape_loop_step)
qed

lemma Scrape_complete:
  assumes "DialTimeout G ''tcp'' (Host s) timeOut
             = Inr (wire_of (BeginToken s @ concat ls @ EndToken s @ bs) r)"
    and "line (BeginToken s)"
    and "\<forall>l \<in> set ls. line l \<and> l \<noteq> EndToken s"
    and "line (EndToken s)"
    and "accumulate G s ls '''' = Inr out"
    and "Scrape_line G s (EndToken s) out = Inr out'"
  shows "Scrape G s st = Some ((out', None), st)"
proof -
  have "Scrape G s st = Scrape_loop G s (wire_of (concat ls @ EndToken s @ bs) r) '''' st"
    using assms(1,2) by (rule Scrape_begin)
  also have "\<dots> = Scrape_loop G s (wire_of (EndToken s @ bs) r) out st"
    using assms(3,5) by (rule Scrape_loop_lines)
  also have "\<dots> = Some ((out', None), st)"
    using assms(4,6) by (rule Scrape_loop_end)
  finally show ?thesis .
qed

lemma fmt_2f_42: "fmt_2f (Num 42) = ''42.00''"
  by code_simp

text \<open>
  Claim C6. The response is the begin token, the one line
  \<open>VAR dev battery.charge "42"\<close> for the device of the sensor, and the end token. With a
  library that matches the line as the expression of \<open>NewSensor\<close> does, does not match
  the end token and reads \<open>42\<close> as the number 42, the output of \<open>Scrape\<close> is the single
  line of \<open>upsc_battery_charge\<close>, the labels of the sensor and \<open>42.00\<close>; no incident is
  counted and nothing is logged.
\<close>

theorem Scrape_battery_charge:
  assumes \<open>DialTimeout G ''tcp'' (Host s) timeOut
             = Inr (wire_of (BeginToken s @ (''VAR '' @ Ups s @ '' battery.charge "42"\<newline>'')
                             @ EndToken s @ bs) r)\<close>
    and "BeginToken s = ''BEGIN LIST VAR '' @ Ups s @ ''\<newline>''"
    and "EndToken s = ''END LIST VAR '' @ Ups s @ ''\<newline>''"
    and "CHR 0x0A \<notin> set (Ups s)"
    and \<open>FindStringSubmatch G (Re s) (''VAR '' @ Ups s @ '' battery.charge "42"\<newline>'')
           = [v0, ''battery.charge'', ''42'']\<close>
    and "FindStringSubmatch G (Re s) (EndToken s) = []"
    and "ParseFloat G ''42'' = Inr (Num 42)"
  shows "Scrape G s st = Some ((''upsc_battery_charge'' @ Labels s @ '' 42.00\<newline>'', None), st)"
proof -
  let ?l = \<open>''VAR '' @ Ups s @ '' battery.charge "42"\<newline>''\<close>
  have b: "line (BeginToken s)" and e: "line (EndToken s)" and l: "line ?l"
    using assms(2-4) by (simp_all add: line_def butlast_append)
  have ne: "?l \<noteq> EndToken s"
    using assms(3) by simp
  have "Scrape_line G s ?l '''' = Inr (''upsc_battery_charge'' @ Labels s @ '' 42.00\<newline>'')"
    using assms(5,7) by (simp add: Scrape_line_def upscVarFloat_def sensorStringMapping_def fmt_2f_42 del: fmt_2f.simps)
  then have acc: "accumulate G s [?l] '''' = Inr (''upsc_battery_charge'' @ Labels s @ '' 42.00\<newline>'')"
    by simp
  have fin: "Scrape_line G s (EndToken s) (''upsc_battery_charge'' @ Labels s @ '' 42.00\<newline>'')
               = Inr (''upsc_battery_charge'' @ Labels s @ '' 42.00\<newline>'')"
    using assms(6) by (simp add: Scrape_line_def)
  have d: "DialTimeout G ''tcp'' (Host s) timeOut
             = Inr (wire_of (BeginToken s @ concat [?l] @ EndToken s @ bs) r)"
    using assms(1) by simp
  show ?thesis
    by (rule Scrape_complete [OF d b _ e acc fin]) (use l ne in simp)
qed

theorem Scrape_battery_charge_witness:
  \<open>Scrape (golib_model (serving ''BEGIN LIST VAR dev\<newline>VAR dev battery.charge "42"\<newline>END LIST VAR dev\<newline>''))
      dev_sensor world0 =
     Some ((''upsc_battery_charge{ups="dev"} 42.00\<newline>'', None), world0)\<close>
proof -
  let ?G = \<open>golib_model (serving ''BEGIN LIST VAR dev\<newline>VAR dev battery.charge "42"\<newline>END LIST VAR dev\<newline>'')\<close>
  have 1: \<open>DialTimeout ?G ''tcp'' (Host dev_sensor) timeOut
             = Inr (wire_of (BeginToken dev_sensor
                             @ (''VAR '' @ Ups dev_sensor @ '' battery.charge "42"\<newline>'')
                             @ EndToken dev_sensor @ []) (Closed ''EOF''))\<close>
    by (simp add: golib_model_def serving_def dev_sensor_def)
  have 2: "BeginToken dev_sensor = ''BEGIN LIST VAR '' @ Ups dev_sensor @ ''\<newline>''"
    and 3: "EndToken dev_sensor = ''END LIST VAR '' @ Ups dev_sensor @ ''\<newline>''"
    and 4: "CHR 0x0A \<notin> set (Ups dev_sensor)"
    by (simp_all add: dev_sensor_def)
  have 5: \<open>FindStringSubmatch ?G (Re dev_sensor) (''VAR '' @ Ups dev_sensor @ '' battery.charge "42"\<newline>'')
             = [''VAR dev battery.charge "42"'', ''battery.charge'', ''42'']\<close>
    by code_simp
  have 6: "FindStringSubmatch ?G (Re dev_sensor) (EndToken dev_sensor) = []"
    by code_simp
  have 7: "ParseFloat ?G ''42'' = Inr (Num 42)"
    by code_simp
  show ?thesis
    using Scrape_battery_charge [OF 1 2 3 4 5 6 7, of world0]
    by (simp add: dev_sensor_def)
qed

text \<open>
  Claim C8. A line whose field is not a key of \<open>upscVarFloat\<close> leaves the output, the
  incident counter and the log as they are, and the loop goes on with the rest of the
  response (or ends, without an incident, when the line is the end token itself).
\<close>

theorem Scrape_unknown_field:
  assumes "ReadString reader CHR 0x0A = Some ((res, None), reader')"
    and "FindStringSubmatch G (Re s) res = [v0, v1, v2]"
    and "upscVarFloat v1 = None"
  shows "Scrape_loop G s reader out st =
           (if res = EndToken s then Some ((out, None), st)
            else Scrape_loop G s reader' out st)"
proof -
  have "Scrape_line G s res out = Inr out"
    using assms(2,3) by (simp add: Scrape_line_def)
  then show ?thesis using assms(1) by (simp add: Scrape_loop_step)
qed

theorem Scrape_unknown_field_witness:
  \<open>Scrape (golib_model (serving ''BEGIN LIST VAR dev\<newline>VAR dev ups.model "Back-UPS"\<newline>VAR dev battery.charge "42"\<newline>END LIST VAR dev\<newline>''))
      dev_sensor world0 =
     Some ((''upsc_battery_charge{ups="dev"} 42.00\<newline>'', None), world0)\<close>
proof -
  let ?G = \<open>golib_model (serving ''BEGIN LIST VAR dev\<newline>VAR dev ups.model "Back-UPS"\<newline>VAR dev battery.charge "42"\<newline>END LIST VAR dev\<newline>'')\<close>
  let ?o = \<open>''upsc_battery_charge{ups="dev"} 42.00\<newline>''\<close>
  let ?u = \<open>''VAR dev ups.model "Back-UPS"\<newline>''\<close>
  let ?l = \<open>''VAR dev battery.charge "42"\<newline>''\<close>
  let ?rest = \<open>wire_of (?l @ EndToken dev_sensor) (Closed ''EOF'')\<close>
  have d: "DialTimeout ?G ''tcp'' (Host dev_sensor) timeOut
             = Inr (wire_of (BeginToken dev_sensor @ ?u @ ?l @ EndToken dev_sensor) (Closed ''EOF''))"
    by (simp add: golib_model_def serving_def dev_sensor_def)
  have b: "line (BeginToken dev_sensor)" and e: "line (EndToken dev_sensor)"
    by (simp_all add: line_def dev_sensor_def)
  have "Scrape ?G dev_sensor world0
          = Scrape_loop ?G dev_sensor (wire_of (?u @ ?l @ EndToken dev_sensor) (Closed ''EOF'')) '''' world0"
    using d b by (rule Scrape_begin)
  also have "\<dots> = Scrape_loop ?G dev_sensor ?rest '''' world0"
  proof -
    have 1: "ReadString (wire_of (?u @ ?l @ EndToken dev_sensor) (Closed ''EOF'')) CHR 0x0A
               = Some ((?u, None), ?rest)"
      by (rule ReadString_line) (simp add: line_def)
    have 2: \<open>FindStringSubmatch ?G (Re dev_sensor) ?u
               = [''VAR dev ups.model "Back-UPS"'', ''ups.model'', ''Back-UPS'']\<close>
      by code_simp
    have 3: "upscVarFloat ''ups.model'' = None"
      by (simp add: upscVarFloat_def)
    show ?thesis
      using Scrape_unknown_field [OF 1 2 3, of "''''" world0]
      by (simp add: dev_sensor_def)
  qed
  also have "\<dots> = Some ((?o, None), world0)"
  proof -
    have 1: "\<forall>l \<in> set [?l]. line l \<and> l \<noteq> EndToken dev_sensor"
      by (simp add: line_def dev_sensor_def)
    have 2: "accumulate ?G dev_sensor [?l] [] = Inr ?o"
      by code_simp
    have 3: "Scrape_line ?G dev_sensor (EndToken dev_sensor) ?o = Inr ?o"
      by code_simp
    have "Scrape_loop ?G dev_sensor (wire_of (concat [?l] @ EndToken dev_sensor @ []) (Closed ''EOF'')) [] world0
            = Scrape_loop ?G dev_sensor (wire_of (EndToken dev_sensor @ []) (Closed ''EOF'')) ?o world0"
      using 1 2 by (rule Scrape_loop_lines)
    also have "\<dots> = Some ((?o, None), world0)"
      using e 3 by (rule Scrape_loop_end)
    finally show ?thesis by simp
  qed
  finally show ?thesis .
qed

section \<open>Values\<close>

lemma fmt_2f_codes:
  "fmt_2f (Num 2) = ''2.00''" "fmt_2f (Num 0) = ''0.00''" "fmt_2f (Num 1) = ''1.00''"
  "fmt_2f (Num (3 / 2)) = ''1.50''" "fmt_2f (Num (1 / 2)) = ''0.50''"
  by code_simp+

text \<open>
  Claim C7. A line whose field is in \<open>upscVarFloat\<close> and whose value is a key of
  \<open>sensorStringMapping\<close> adds to the output the metric with the code of the table,
  and \<open>ParseFloat\<close> is not asked. For the field \<open>ups.status\<close> the metric is
  \<open>upsc_ups_online\<close>; the value \<open>OL\<close> has the code 2, written \<open>2.00\<close>, and
  \<open>LB\<close> has the code 0, written \<open>0.00\<close>.
\<close>

theorem Scrape_symbolic_value:
  assumes "ReadString reader CHR 0x0A = Some ((res, None), reader')"
    and "FindStringSubmatch G (Re s) res = [v0, v1, v2]"
    and "upscVarFloat v1 = Some value"
    and "sensorStringMapping v2 = Some code"
  shows "Scrape_loop G s reader out st =
           (if res = EndToken s
            then Some ((out @ value @ Labels s @ '' '' @ fmt_2f code @ ''\<newline>'', None), st)
            else Scrape_loop G s reader' (out @ value @ Labels s @ '' '' @ fmt_2f code @ ''\<newline>'') st)
         \<and> upscVarFloat ''ups.status'' = Some ''upsc_ups_online''
         \<and> sensorStringMapping ''OL'' = Some (Num 2) \<and> fmt_2f (Num 2) = ''2.00''
         \<and> sensorStringMapping ''LB'' = Some (Num 0) \<and> fmt_2f (Num 0) = ''0.00''"
proof -
  have "Scrape_line G s res out = Inr (out @ value @ Labels s @ '' '' @ fmt_2f code @ ''\<newline>'')"
    using assms(2-4) by (simp add: Scrape_line_def)
  then have "Scrape_loop G s reader out st =
           (if res = EndToken s
            then Some ((out @ value @ Labels s @ '' '' @ fmt_2f code @ ''\<newline>'', None), st)
            else Scrape_loop G s reader' (out @ value @ Labels s @ '' '' @ fmt_2f code @ ''\<newline>'') st)"
    using assms(1) by (simp add: Scrape_loop_step)
  moreover have "upscVarFloat ''ups.status'' = Some ''upsc_ups_online''"
    by (simp add: upscVarFloat_def)
  moreover have "sensorStringMapping ''OL'' = Some (Num 2)" "sensorStringMapping ''LB'' = Some (Num 0)"
    by (simp_all add: sensorStringMapping_def)
  ultimately show ?thesis by (simp add: fmt_2f_codes del: fmt_2f.simps)
qed

theorem Scrape_symbolic_value_witness:
  \<open>Scrape (golib_model (serving ''BEGIN LIST VAR dev\<newline>VAR dev ups.status "OL"\<newline>VAR dev ups.status "LB"\<newline>END LIST VAR dev\<newline>''))
      dev_sensor world0 =
     Some ((''upsc_ups_online{ups="dev"} 2.00\<newline>upsc_ups_online{ups="dev"} 0.00\<newline>'', None), world0)\<close>
proof -
  let ?G = \<open>golib_model (serving ''BEGIN LIST VAR dev\<newline>VAR dev ups.status "OL"\<newline>VAR dev ups.status "LB"\<newline>END LIST VAR dev\<newline>'')\<close>
  let ?a = \<open>''VAR dev ups.status "OL"\<newline>''\<close>
  let ?b = \<open>''VAR dev ups.status "LB"\<newline>''\<close>
  let ?oa = \<open>''upsc_ups_online{ups="dev"} 2.00\<newline>''\<close>
  let ?ob = \<open>''upsc_ups_online{ups="dev"} 2.00\<newline>upsc_ups_online{ups="dev"} 0.00\<newline>''\<close>
  let ?e = "EndToken dev_sensor"
  have d: "DialTimeout ?G ''tcp'' (Host dev_sensor) timeOut
             = Inr (wire_of (BeginToken dev_sensor @ ?a @ ?b @ ?e) (Closed ''EOF''))"
    by (simp add: golib_model_def serving_def dev_sensor_def)
  have b: "line (BeginToken dev_sensor)" and e: "line ?e"
    by (simp_all add: line_def dev_sensor_def)
  have st: "upscVarFloat ''ups.status'' = Some ''upsc_ups_online''"
    by (simp add: upscVarFloat_def)
  have "Scrape ?G dev_sensor world0
          = Scrape_loop ?G dev_sensor (wire_of (?a @ ?b @ ?e) (Closed ''EOF'')) [] world0"
    using d b by (rule Scrape_begin)
  also have "\<dots> = Scrape_loop ?G dev_sensor (wire_of (?b @ ?e) (Closed ''EOF'')) ?oa world0"
  proof -
    have 1: "ReadString (wire_of (?a @ ?b @ ?e) (Closed ''EOF'')) CHR 0x0A
               = Some ((?a, None), wire_of (?b @ ?e) (Closed ''EOF''))"
      by (rule ReadString_line) (simp add: line_def)
    have 2: \<open>FindStringSubmatch ?G (Re dev_sensor) ?a = [''VAR dev ups.status "OL"'', ''ups.status'', ''OL'']\<close>
      by code_simp
    have 4: "sensorStringMapping ''OL'' = Some (Num 2)"
      by (simp add: sensorStringMapping_def)
    show ?thesis
      using Scrape_symbolic_value [OF 1 2 st 4, of "[]" world0]
      by (simp add: dev_sensor_def del: fmt_2f.simps)
  qed
  also have "\<dots> = Scrape_loop ?G dev_sensor (wire_of ?e (Closed ''EOF'')) ?ob world0"
  proof -
    have 1: "ReadString (wire_of (?b @ ?e) (Closed ''EOF'')) CHR 0x0A
               = Some ((?b, None), wire_of ?e (Closed ''EOF''))"
      by (rule ReadString_line) (simp add: line_def)
    have 2: \<open>FindStringSubmatch ?G (Re dev_sensor) ?b = [''VAR dev ups.status "LB"'', ''ups.status'', ''LB'']\<close>
      by code_simp
    have 4: "sensorStringMapping ''LB'' = Some (Num 0)"
      by (simp add: sensorStringMapping_def)
    show ?thesis
      using Scrape_symbolic_value [OF 1 2 st 4, of ?oa world0]
      by (simp add: dev_sensor_def del: fmt_2f.simps)
  qed
  also have "\<dots> = Some ((?ob, None), world0)"
  proof -
    have 3: "Scrape_line ?G dev_sensor ?e ?ob = Inr ?ob"
      by code_simp
    have "Scrape_loop ?G dev_sensor (wire_of (?e @ []) (Closed ''EOF'')) ?ob world0 = Some ((?ob, None), world0)"
      using e 3 by (rule Scrape_loop_end)
    then show ?thesis by simp
  qed
  finally show ?thesis .
qed

section \<open>Construction\<close>

lemma Split_not_Nil: "Split s sep \<noteq> []"
  by (induction s) (auto split: list.splits)

lemma Split_without: "sep \<notin> set s \<Longrightarrow> Split s sep = [s]"
  by (induction s) auto

lemma Split_at: "sep \<notin> set a \<Longrightarrow> Split (a @ sep # b) sep = a # Split b sep"
  by (induction a) auto

lemma NewSensor_conf_device:
  assumes "CHR ''@'' \<notin> set dev"
  shows \<open>NewSensor_conf dev = Some (''{ups="'' @ dev @ ''"}'', ''localhost:3493'', dev)\<close>
  using assms by (simp add: NewSensor_conf_def Split_without)

lemma NewSensor_conf_host:
  assumes "CHR ''@'' \<notin> set dev" and "CHR ''@'' \<notin> set host" and "CHR '':'' \<notin> set host"
  shows \<open>NewSensor_conf (dev @ ''@'' @ host)
           = Some (''{ups="'' @ dev @ ''",host="'' @ host @ ''"}'', host @ '':3493'', dev)\<close>
  using assms by (simp add: NewSensor_conf_def Split_at Split_without)

lemma NewSensor_conf_port:
  assumes "CHR ''@'' \<notin> set dev" and "CHR ''@'' \<notin> set host" and "CHR '':'' \<notin> set host"
    and "CHR ''@'' \<notin> set port"
  shows \<open>NewSensor_conf (dev @ ''@'' @ host @ '':'' @ port)
           = Some (''{ups="'' @ dev @ ''",host="'' @ host @ ''"}'', host @ '':'' @ port, dev)\<close>
proof -
  have "Split (dev @ ''@'' @ host @ '':'' @ port) CHR ''@'' = [dev, host @ '':'' @ port]"
    using assms(1,2,4) by (simp add: Split_at Split_without)
  moreover obtain p ps where "Split port CHR '':'' = p # ps"
    using Split_not_Nil [of port "CHR '':''"] by (cases "Split port CHR '':''") auto
  then have "Split (host @ '':'' @ port) CHR '':'' = host # p # ps"
    using assms(3) by (simp add: Split_at)
  ultimately show ?thesis by (simp add: NewSensor_conf_def)
qed

lemma NewSensor_fields:
  assumes "NewSensor_conf opts = Some (labels, host, ups)"
    and "NewSensor G opts st = (Inr s, st')"
  shows "Labels s = labels \<and> Host s = host \<and> Ups s = ups
         \<and> BeginToken s = ''BEGIN LIST VAR '' @ ups @ ''\<newline>''
         \<and> EndToken s = ''END LIST VAR '' @ ups @ ''\<newline>''"
  using assms by (auto simp: NewSensor_def Let_def split: sum.splits)

text \<open>
  Claim C4 fails on the code for a host that is an IPv6 address in brackets, which the
  dial accepts in \<open>host:port\<close>. The source cuts the host at its first colon to leave
  the port out of the label (its comment: do not use port in label), and so for the options
  \<open>dev@[::1]:3493\<close> the label \<open>host\<close> is the opening bracket alone instead of the
  host.
\<close>

theorem NewSensor_ipv6_labels:
  \<open>NewSensor_conf ''dev@[::1]:3493'' = Some (''{ups="dev",host="["}'', ''[::1]:3493'', ''dev'')
   \<and> fst (NewSensor (golib_model refusing) ''dev@[::1]:3493'' world0)
       = Inr \<lparr>Labels = ''{ups="dev",host="["}'', Host = ''[::1]:3493'', Ups = ''dev'',
              Re = UpscRe ''dev'', BeginToken = ''BEGIN LIST VAR dev\<newline>'',
              EndToken = ''END LIST VAR dev\<newline>''\<rparr>\<close>
  by code_simp

text \<open>
  For a host without a colon the labels are the device under \<open>ups\<close> and the host under
  \<open>host\<close> and nothing else: the port is in the address that is dialled, not in the
  labels.
\<close>

lemma NewSensor_labels_plain_host:
  assumes "CHR ''@'' \<notin> set dev" and "CHR ''@'' \<notin> set host" and "CHR '':'' \<notin> set host"
    and "CHR ''@'' \<notin> set port"
    and "NewSensor G (dev @ ''@'' @ host @ '':'' @ port) st = (Inr s, st')"
  shows \<open>Labels s = ''{ups="'' @ dev @ ''",host="'' @ host @ ''"}''
         \<and> Host s = host @ '':'' @ port \<and> Ups s = dev\<close>
  using NewSensor_fields [OF NewSensor_conf_port [OF assms(1-4)] assms(5)] by simp

lemma NewSensor_labels_plain_host_example:
  \<open>(case fst (NewSensor (golib_model refusing) ''dev@ups.example.org:3500'' world0) of
      Inl err \<Rightarrow> False
    | Inr s \<Rightarrow> Labels s = ''{ups="dev",host="ups.example.org"}'' \<and> Host s = ''ups.example.org:3500'')\<close>
proof -
  have ev: \<open>NewSensor (golib_model refusing) (''dev'' @ ''@'' @ ''ups.example.org'' @ '':'' @ ''3500'') world0
        = (Inr \<lparr>Labels = ''{ups="dev",host="ups.example.org"}'', Host = ''ups.example.org:3500'',
                 Ups = ''dev'', Re = UpscRe ''dev'', BeginToken = ''BEGIN LIST VAR dev\<newline>'',
                 EndToken = ''END LIST VAR dev\<newline>''\<rparr>,
           \<lparr>IncidentCount = 0,
            Log = [''Adding upsc sensor at ups.example.org:3500 but could not connect to remote.\<newline>'']\<rparr>)\<close>
    by code_simp
  have "CHR ''@'' \<notin> set ''dev''" "CHR ''@'' \<notin> set ''ups.example.org''"
    "CHR '':'' \<notin> set ''ups.example.org''" "CHR ''@'' \<notin> set ''3500''"
    by simp_all
  from NewSensor_labels_plain_host [OF this ev] show ?thesis
    using ev by simp
qed

text \<open>
  Claim C5 fails on the code for the same hosts. The source takes a host to have no port
  when it has no colon (its comment: set default port if needed), and so for the options
  \<open>dev@[::1]\<close>, which give no port, it appends none: the address that is dialled is
  \<open>[::1]\<close>.
\<close>

theorem NewSensor_ipv6_no_default_port:
  \<open>NewSensor_conf ''dev@[::1]'' = Some (''{ups="dev",host="["}'', ''[::1]'', ''dev'')
   \<and> fst (NewSensor (golib_model refusing) ''dev@[::1]'' world0)
       = Inr \<lparr>Labels = ''{ups="dev",host="["}'', Host = ''[::1]'', Ups = ''dev'',
              Re = UpscRe ''dev'', BeginToken = ''BEGIN LIST VAR dev\<newline>'',
              EndToken = ''END LIST VAR dev\<newline>''\<rparr>\<close>
  by code_simp

text \<open>
  For options that are a device name alone the address is \<open>localhost:3493\<close>, and for
  \<open>device@host\<close> with a host without a colon the address is the host with port 3493.
\<close>

lemma NewSensor_default_host_plain:
  \<open>(CHR ''@'' \<notin> set dev \<and> NewSensor G dev st = (Inr s, st') \<longrightarrow> Host s = ''localhost:3493'')
   \<and> (CHR ''@'' \<notin> set dev \<and> CHR ''@'' \<notin> set host \<and> CHR '':'' \<notin> set host
        \<and> NewSensor G (dev @ ''@'' @ host) st = (Inr s, st') \<longrightarrow> Host s = host @ '':3493'')\<close>
  using NewSensor_fields [OF NewSensor_conf_device, of dev G st s st']
    NewSensor_fields [OF NewSensor_conf_host, of dev host G st s st']
  by blast

lemma NewSensor_default_host_plain_example:
  \<open>(case fst (NewSensor (golib_model refusing) ''dev'' world0) of
      Inl err \<Rightarrow> False | Inr s \<Rightarrow> Host s = ''localhost:3493'')
   \<and> (case fst (NewSensor (golib_model refusing) ''dev@ups.example.org'' world0) of
      Inl err \<Rightarrow> False | Inr s \<Rightarrow> Host s = ''ups.example.org:3493'')\<close>
proof -
  let ?G = "golib_model refusing"
  let ?st1 = \<open>\<lparr>IncidentCount = 0,
            Log = [''Adding upsc sensor at localhost:3493 but could not connect to remote.\<newline>'']\<rparr>\<close>
  let ?s2 = \<open>\<lparr>Labels = ''{ups="dev",host="ups.example.org"}'', Host = ''ups.example.org:3493'',
             Ups = ''dev'', Re = UpscRe ''dev'', BeginToken = ''BEGIN LIST VAR dev\<newline>'',
             EndToken = ''END LIST VAR dev\<newline>''\<rparr>\<close>
  let ?st2 = \<open>\<lparr>IncidentCount = 0,
            Log = [''Adding upsc sensor at ups.example.org:3493 but could not connect to remote.\<newline>'']\<rparr>\<close>
  have ev1: "NewSensor ?G ''dev'' world0 = (Inr dev_sensor, ?st1)"
    by code_simp
  have ev2: "NewSensor ?G (''dev'' @ ''@'' @ ''ups.example.org'') world0 = (Inr ?s2, ?st2)"
    by code_simp
  have "Host dev_sensor = ''localhost:3493''"
    using NewSensor_default_host_plain [of "''dev''" ?G world0 dev_sensor ?st1] ev1 by simp
  moreover have "Host ?s2 = ''ups.example.org'' @ '':3493''"
    using NewSensor_default_host_plain [of "''dev''" ?G world0 ?s2 ?st2 "''ups.example.org''"] ev2 by simp
  ultimately show ?thesis using ev1 ev2 by simp
qed

text \<open>
  Claim C10. The empty options pass the switch on the number of pieces as a device name
  alone, and once the library has compiled the expression for the empty device name,
  \<open>NewSensor\<close> returns a sensor with an empty device name, the labels \<open>{ups=""}\<close> and
  the address \<open>localhost:3493\<close>. Nothing asks for a device name that is not empty.
\<close>

theorem NewSensor_empty_options:
  assumes \<open>regexp_Compile G ''VAR  ([a-zA-Z.]*) "(.*)"'' = Inr re\<close>
  shows \<open>NewSensor_conf [] = Some (''{ups=""}'', ''localhost:3493'', [])
         \<and> fst (NewSensor G [] st)
             = Inr \<lparr>Labels = ''{ups=""}'', Host = ''localhost:3493'', Ups = [], Re = re,
                    BeginToken = ''BEGIN LIST VAR \<newline>'', EndToken = ''END LIST VAR \<newline>''\<rparr>\<close>
proof -
  have c: \<open>NewSensor_conf [] = Some (''{ups=""}'', ''localhost:3493'', [])\<close>
    by (simp add: NewSensor_conf_def)
  then show ?thesis using assms by (simp add: NewSensor_def split: sum.splits)
qed

theorem NewSensor_empty_options_witness:
  \<open>fst (NewSensor (golib_model refusing) [] world0)
     = Inr \<lparr>Labels = ''{ups=""}'', Host = ''localhost:3493'', Ups = [], Re = UpscRe [],
            BeginToken = ''BEGIN LIST VAR \<newline>'', EndToken = ''END LIST VAR \<newline>''\<rparr>\<close>
proof -
  have \<open>regexp_Compile (golib_model refusing) ''VAR  ([a-zA-Z.]*) "(.*)"'' = Inr (UpscRe [])\<close>
    by code_simp
  from NewSensor_empty_options [OF this, of world0] show ?thesis by simp
qed

section \<open>The reply for an unknown device\<close>

lemma unknown_ups_not_reading:
  \<open>''Upsc '' @ u @ ''@'' @ h @ '', upsd daemon said "unknown ups".\<newline>''
     \<noteq> ''Upsc '' @ u @ ''@'' @ h @ '', connection error while reading: '' @ err @ ''\<newline>''\<close>
  by simp

lemma unknown_ups_not_parse:
  \<open>''Upsc '' @ u @ ''@'' @ h @ '', upsd daemon said "unknown ups".\<newline>''
     \<noteq> ''Upsc '' @ u @ ''@'' @ h @ '', could not parse '' @ v1 @ ''. Error: '' @ err @ ''\<newline>''\<close>
  by simp

lemma unknown_ups_not_response:
  \<open>''Upsc '' @ u @ ''@'' @ h @ '', upsd daemon said "unknown ups".\<newline>''
     \<noteq> ''Upsc '' @ u @ ''@'' @ h @ '', upsd daemon returned unknown response: '' @ res @ ''.\<newline>''\<close>
  by simp

lemma unknown_ups_not_begin:
  \<open>''Upsc '' @ u @ ''@'' @ h @ '', upsd daemon said "unknown ups".\<newline>''
     \<noteq> ''Upsc '' @ u @ ''@'' @ h @ '', reading returned error: '' @ err @ ''\<newline>''\<close>
  by simp

lemma unknown_ups_not_connect:
  \<open>''Upsc '' @ u @ ''@'' @ h @ '', upsd daemon said "unknown ups".\<newline>''
     \<noteq> ''Upsc '' @ u @ ''@'' @ h @ '', failed to connect: '' @ err @ ''\<newline>''\<close>
  by simp

lemma Scrape_loop_log:
  assumes "Scrape_loop (G :: 're golib) s reader out st = Some y"
  shows \<open>\<exists>new. Log (snd y) = Log st @ new
           \<and> ''Upsc '' @ Ups s @ ''@'' @ Host s @ '', upsd daemon said "unknown ups".\<newline>'' \<notin> set new\<close>
proof (rule Scrape_loop.raw_induct
    [where P = \<open>\<lambda>(G :: 're golib) (s :: 're Sensor) reader out st y. \<exists>new. Log (snd y) = Log st @ new
           \<and> ''Upsc '' @ Ups s @ ''@'' @ Host s @ '', upsd daemon said "unknown ups".\<newline>'' \<notin> set new\<close>,
      OF _ assms])
  fix rec :: "'re golib \<Rightarrow> 're Sensor \<Rightarrow> wire \<Rightarrow> string \<Rightarrow> world \<Rightarrow> ((string \<times> error option) \<times> world) option"
    and G :: "'re golib" and s :: "'re Sensor" and reader out st y
  let ?msg = \<open>''Upsc '' @ Ups s @ ''@'' @ Host s @ '', upsd daemon said "unknown ups".\<newline>''\<close>
  assume IH: \<open>\<And>G (s :: 're Sensor) reader out st y. rec G s reader out st = Some y \<Longrightarrow>
                \<exists>new. Log (snd y) = Log st @ new
                  \<and> ''Upsc '' @ Ups s @ ''@'' @ Host s @ '', upsd daemon said "unknown ups".\<newline>'' \<notin> set new\<close>
    and step: \<open>(case ReadString reader CHR 0x0A of
        None \<Rightarrow> None
      | Some ((res, Some err), reader') \<Rightarrow>
          Some (('''', None),
                Printf (''Upsc '' @ Ups s @ ''@'' @ Host s @ '', connection error while reading: ''
                        @ err @ ''\<newline>'') (Incident st))
      | Some ((res, None), reader') \<Rightarrow>
          (case Scrape_line G s res out of
             Inl (v1, err) \<Rightarrow>
               Some ((out, None),
                     Printf (''Upsc '' @ Ups s @ ''@'' @ Host s @ '', could not parse '' @ v1
                             @ ''. Error: '' @ err @ ''\<newline>'') (Incident st))
           | Inr out' \<Rightarrow>
               if res = EndToken s then Some ((out', None), st)
               else rec G s reader' out' st)) = Some y\<close>
  show "\<exists>new. Log (snd y) = Log st @ new \<and> ?msg \<notin> set new"
  proof (cases "ReadString reader CHR 0x0A")
    case None
    then show ?thesis using step by simp
  next
    case (Some a)
    then obtain res e reader' where a: "ReadString reader CHR 0x0A = Some ((res, e), reader')"
      by (metis surj_pair)
    show ?thesis
    proof (cases e)
      case (Some err)
      let ?m = "''Upsc '' @ Ups s @ ''@'' @ Host s @ '', connection error while reading: '' @ err @ ''\<newline>''"
      have "y = (('''', None), Printf ?m (Incident st))"
        using step a Some by simp
      then have "Log (snd y) = Log st @ [?m]"
        by (simp add: Printf_def Incident_def)
      moreover have "?msg \<notin> set [?m]"
        using unknown_ups_not_reading [of "Ups s" "Host s" err] by simp
      ultimately show ?thesis by blast
    next
      case None
      show ?thesis
      proof (cases "Scrape_line G s res out")
        case (Inl p)
        then obtain v1 err where p: "Scrape_line G s res out = Inl (v1, err)"
          by (metis surj_pair)
        let ?m = "''Upsc '' @ Ups s @ ''@'' @ Host s @ '', could not parse '' @ v1
                             @ ''. Error: '' @ err @ ''\<newline>''"
        have "y = ((out, None), Printf ?m (Incident st))"
          using step a None p by simp
        then have "Log (snd y) = Log st @ [?m]"
          by (simp add: Printf_def Incident_def)
        moreover have "?msg \<notin> set [?m]"
          using unknown_ups_not_parse [of "Ups s" "Host s" v1 err] by simp
        ultimately show ?thesis by blast
      next
        case (Inr out')
        show ?thesis
        proof (cases "res = EndToken s")
          case True
          then have "y = ((out', None), st)"
            using step a None Inr by simp
          then have "Log (snd y) = Log st @ []"
            by simp
          moreover have "?msg \<notin> set []"
            by simp
          ultimately show ?thesis by blast
        next
          case False
          then have "rec G s reader' out' st = Some y"
            using step a None Inr by simp
          then show ?thesis by (rule IH)
        qed
      qed
    qed
  qed
qed

text \<open>
  Claim C9. A line that \<open>ReadString\<close> returns without an error ends in a newline, so it
  is never equal to \<open>ERR UNKNOWN-UPS\<close>, which has none: whatever the peer sends, a scrape
  that returns has not logged the message of the unknown-device branch. The reply
  \<open>ERR UNKNOWN-UPS\<close> of the daemon is handled by the branch for an unknown response: the
  empty string, a nil error, one incident, and that branch's log line.
\<close>

theorem Scrape_unknown_ups_unreachable:
  \<open>(\<forall>reader res reader'. ReadString reader CHR 0x0A = Some ((res, None), reader')
        \<longrightarrow> res \<noteq> ''ERR UNKNOWN-UPS'')
   \<and> (\<forall>y. Scrape G s st = Some y \<longrightarrow>
        (\<exists>new. Log (snd y) = Log st @ new
           \<and> ''Upsc '' @ Ups s @ ''@'' @ Host s @ '', upsd daemon said "unknown ups".\<newline>''
               \<notin> set new))
   \<and> (DialTimeout G ''tcp'' (Host s) timeOut = Inr (wire_of (''ERR UNKNOWN-UPS\<newline>'' @ bs) r)
        \<and> BeginToken s = ''BEGIN LIST VAR '' @ Ups s @ ''\<newline>''
      \<longrightarrow> Scrape G s st =
            Some (('''', None),
                  st\<lparr>IncidentCount := IncidentCount st + 1,
                     Log := Log st @ [''Upsc '' @ Ups s @ ''@'' @ Host s
                                      @ '', upsd daemon returned unknown response: ''
                                      @ ''ERR UNKNOWN-UPS\<newline>'' @ ''.\<newline>'']\<rparr>))\<close>
proof (intro conjI allI impI)
  fix reader res reader'
  assume "ReadString reader CHR 0x0A = Some ((res, None), reader')"
  then have "last res = CHR 0x0A"
    using ReadString_ends by blast
  then show "res \<noteq> ''ERR UNKNOWN-UPS''"
    by auto
next
  fix y
  let ?msg = \<open>''Upsc '' @ Ups s @ ''@'' @ Host s @ '', upsd daemon said "unknown ups".\<newline>''\<close>
  assume run: "Scrape G s st = Some y"
  show "\<exists>new. Log (snd y) = Log st @ new \<and> ?msg \<notin> set new"
  proof (cases "DialTimeout G ''tcp'' (Host s) timeOut")
    case (Inl err)
    let ?m = "''Upsc '' @ Ups s @ ''@'' @ Host s @ '', failed to connect: '' @ err @ ''\<newline>''"
    have "y = (('''', None), Printf ?m (Incident st))"
      using run Inl by (simp add: Scrape_def)
    then have "Log (snd y) = Log st @ [?m]"
      by (simp add: Printf_def Incident_def)
    moreover have "?msg \<notin> set [?m]"
      using unknown_ups_not_connect [of "Ups s" "Host s" err] by simp
    ultimately show ?thesis by blast
  next
    case (Inr conn)
    show ?thesis
    proof (cases "ReadString conn CHR 0x0A")
      case None
      then show ?thesis using run Inr by (simp add: Scrape_def)
    next
      case (Some a)
      then obtain res e reader where a: "ReadString conn CHR 0x0A = Some ((res, e), reader)"
        by (metis surj_pair)
      show ?thesis
      proof (cases e)
        case (Some err)
        let ?m = "''Upsc '' @ Ups s @ ''@'' @ Host s @ '', reading returned error: '' @ err @ ''\<newline>''"
        have "y = (('''', None), Printf ?m (Incident st))"
          using run Inr a Some by (simp add: Scrape_def)
        then have "Log (snd y) = Log st @ [?m]"
          by (simp add: Printf_def Incident_def)
        moreover have "?msg \<notin> set [?m]"
          using unknown_ups_not_begin [of "Ups s" "Host s" err] by simp
        ultimately show ?thesis by blast
      next
        case None
        have "last res = CHR 0x0A"
          using a None ReadString_ends by blast
        then have ne: "res \<noteq> ''ERR UNKNOWN-UPS''"
          by auto
        show ?thesis
        proof (cases "res = BeginToken s")
          case True
          then have "Scrape_loop G s reader '''' st = Some y"
            using run Inr a None ne by (simp add: Scrape_def)
          then show ?thesis by (rule Scrape_loop_log)
        next
          case False
          let ?m = "''Upsc '' @ Ups s @ ''@'' @ Host s @ '', upsd daemon returned unknown response: ''
                      @ res @ ''.\<newline>''"
          have "y = (('''', None), Printf ?m (Incident st))"
            using run Inr a None ne False by (simp add: Scrape_def)
          then have "Log (snd y) = Log st @ [?m]"
            by (simp add: Printf_def Incident_def)
          moreover have "?msg \<notin> set [?m]"
            using unknown_ups_not_response [of "Ups s" "Host s" res] by simp
          ultimately show ?thesis by blast
        qed
      qed
    qed
  qed
next
  assume h: "DialTimeout G ''tcp'' (Host s) timeOut = Inr (wire_of (''ERR UNKNOWN-UPS\<newline>'' @ bs) r)
        \<and> BeginToken s = ''BEGIN LIST VAR '' @ Ups s @ ''\<newline>''"
  have "ReadString (wire_of (''ERR UNKNOWN-UPS\<newline>'' @ bs) r) CHR 0x0A
          = Some ((''ERR UNKNOWN-UPS\<newline>'', None), wire_of bs r)"
    by (rule ReadString_line) (simp add: line_def)
  then show "Scrape G s st =
            Some (('''', None),
                  st\<lparr>IncidentCount := IncidentCount st + 1,
                     Log := Log st @ [''Upsc '' @ Ups s @ ''@'' @ Host s
                                      @ '', upsd daemon returned unknown response: ''
                                      @ ''ERR UNKNOWN-UPS\<newline>'' @ ''.\<newline>'']\<rparr>)"
    using h by (simp add: Scrape_def Printf_def Incident_def)
qed

theorem Scrape_unknown_ups_unreachable_witness:
  "Scrape (golib_model (serving ''ERR UNKNOWN-UPS\<newline>'')) dev_sensor world0 =
     Some (('''', None),
           \<lparr>IncidentCount = 1,
            Log = [''Upsc dev@localhost:3493, upsd daemon returned unknown response: ERR UNKNOWN-UPS\<newline>.\<newline>'']\<rparr>)"
proof -
  let ?G = "golib_model (serving ''ERR UNKNOWN-UPS\<newline>'')"
  have "DialTimeout ?G ''tcp'' (Host dev_sensor) timeOut
          = Inr (wire_of (''ERR UNKNOWN-UPS\<newline>'' @ []) (Closed ''EOF''))
        \<and> BeginToken dev_sensor = ''BEGIN LIST VAR '' @ Ups dev_sensor @ ''\<newline>''"
    by (simp add: golib_model_def serving_def dev_sensor_def)
  with Scrape_unknown_ups_unreachable [of ?G dev_sensor world0 "[]" "Closed ''EOF''"]
  show ?thesis
    by (simp add: dev_sensor_def world0_def)
qed

section \<open>Returning\<close>

lemma repeating_Cons: "repeating l (c # cs) = Byte c (repeating l cs)"
  by (subst repeating.code) simp

lemma repeating_wire_of: "repeating l cur = wire_of cur (repeating l [])"
  by (induction cur) (simp_all add: repeating_Cons)

lemma repeating_Nil: "l \<noteq> [] \<Longrightarrow> repeating l [] = repeating l l"
proof (cases l)
  case Nil
  moreover assume "l \<noteq> []"
  ultimately show ?thesis by simp
next
  case (Cons c cs)
  have "repeating (c # cs) [] = Byte c (repeating (c # cs) cs)"
    by (subst repeating.code) simp
  then show ?thesis using Cons by (simp add: repeating_Cons)
qed

lemma repeating_unfold: "l \<noteq> [] \<Longrightarrow> repeating l [] = wire_of l (repeating l [])"
  using repeating_Nil repeating_wire_of by metis

lemma ReadString_repeating:
  assumes "line l"
  shows "ReadString (repeating l []) CHR 0x0A = Some ((l, None), repeating l [])"
proof -
  from assms have "l \<noteq> []" by (simp add: line_def)
  then have "repeating l [] = wire_of (l @ []) (repeating l [])"
    using repeating_unfold by simp
  moreover have "ReadString (wire_of (l @ []) (repeating l [])) CHR 0x0A = Some ((l, None), wire_of [] (repeating l []))"
    using assms by (rule ReadString_line)
  ultimately show ?thesis by simp
qed

lemma Scrape_loop_repeating:
  assumes "line l" and "l \<noteq> EndToken s0" and "\<And>out. \<exists>out'. Scrape_line G0 s0 l out = Inr out'"
  shows "Scrape_loop (G0 :: 're golib) s0 (repeating l []) out st = None"
proof (rule ccontr)
  assume "Scrape_loop G0 s0 (repeating l []) out st \<noteq> None"
  then obtain y where run: "Scrape_loop G0 s0 (repeating l []) out st = Some y"
    by blast
  have "G0 = G0 \<longrightarrow> s0 = s0 \<longrightarrow> repeating l [] = repeating l [] \<longrightarrow> False"
  proof (rule Scrape_loop.raw_induct
      [where P = "\<lambda>(G :: 're golib) (s :: 're Sensor) reader out st y.
                     G = G0 \<longrightarrow> s = s0 \<longrightarrow> reader = repeating l [] \<longrightarrow> False",
        OF _ run])
    fix rec :: "'re golib \<Rightarrow> 're Sensor \<Rightarrow> wire \<Rightarrow> string \<Rightarrow> world \<Rightarrow> ((string \<times> error option) \<times> world) option"
      and G :: "'re golib" and s :: "'re Sensor" and reader out st y
    assume IH: "\<And>G (s :: 're Sensor) reader out st y. rec G s reader out st = Some y \<Longrightarrow>
                  G = G0 \<longrightarrow> s = s0 \<longrightarrow> reader = repeating l [] \<longrightarrow> False"
      and step: \<open>(case ReadString reader CHR 0x0A of
        None \<Rightarrow> None
      | Some ((res, Some err), reader') \<Rightarrow>
          Some (('''', None),
                Printf (''Upsc '' @ Ups s @ ''@'' @ Host s @ '', connection error while reading: ''
                        @ err @ ''\<newline>'') (Incident st))
      | Some ((res, None), reader') \<Rightarrow>
          (case Scrape_line G s res out of
             Inl (v1, err) \<Rightarrow>
               Some ((out, None),
                     Printf (''Upsc '' @ Ups s @ ''@'' @ Host s @ '', could not parse '' @ v1
                             @ ''. Error: '' @ err @ ''\<newline>'') (Incident st))
           | Inr out' \<Rightarrow>
               if res = EndToken s then Some ((out', None), st)
               else rec G s reader' out' st)) = Some y\<close>
    show "G = G0 \<longrightarrow> s = s0 \<longrightarrow> reader = repeating l [] \<longrightarrow> False"
    proof (intro impI)
      assume eq: "G = G0" "s = s0" "reader = repeating l []"
      obtain out' where o: "Scrape_line G0 s0 l out = Inr out'"
        using assms(3) by blast
      have "rec G0 s0 (repeating l []) out' st = Some y"
        using step eq o assms(2) ReadString_repeating [OF assms(1)] by simp
      then show False using IH by blast
    qed
  qed
  then show False by simp
qed

lemma ReadString_finite:
  "ReadString (wire_of bytes (Closed e)) d =
     (if d \<in> set bytes
      then Some ((takeWhile (\<lambda>c. c \<noteq> d) bytes @ [d], None),
                 wire_of (tl (dropWhile (\<lambda>c. c \<noteq> d) bytes)) (Closed e))
      else Some ((bytes, Some e), Closed e))"
  by (simp add: ReadString_def ReadString_acc_wire_of) (simp add: ReadString_acc.simps)

lemma Scrape_loop_returns:
  "Scrape_loop G s (wire_of bytes (Closed e)) out st \<noteq> None"
proof (induction "length bytes" arbitrary: bytes out rule: less_induct)
  case less
  show ?case
  proof (cases "CHR 0x0A \<in> set bytes")
    case False
    then have "ReadString (wire_of bytes (Closed e)) CHR 0x0A = Some ((bytes, Some e), Closed e)"
      by (simp add: ReadString_finite)
    then show ?thesis
      by (subst Scrape_loop.simps) simp
  next
    case True
    let ?res = "takeWhile (\<lambda>c. c \<noteq> CHR 0x0A) bytes @ [CHR 0x0A]"
    let ?rest = "tl (dropWhile (\<lambda>c. c \<noteq> CHR 0x0A) bytes)"
    have rd: "ReadString (wire_of bytes (Closed e)) CHR 0x0A = Some ((?res, None), wire_of ?rest (Closed e))"
      using True by (simp add: ReadString_finite)
    have "dropWhile (\<lambda>c. c \<noteq> CHR 0x0A) bytes \<noteq> []"
      using True by simp
    then have "length ?rest < length (dropWhile (\<lambda>c. c \<noteq> CHR 0x0A) bytes)"
      by (cases "dropWhile (\<lambda>c. c \<noteq> CHR 0x0A) bytes") simp_all
    also have "\<dots> \<le> length bytes"
      by (rule length_dropWhile_le)
    finally have shorter: "length ?rest < length bytes" .
    show ?thesis
    proof (cases "Scrape_line G s ?res out")
      case (Inl p)
      then show ?thesis
        using rd by (cases p) (simp add: Scrape_loop_step)
    next
      case (Inr out')
      then show ?thesis
        using rd less [OF shorter, of out'] by (simp add: Scrape_loop_step)
    qed
  qed
qed

lemma Scrape_loop_Silent:
  assumes "CHR 0x0A \<notin> set bs"
  shows "Scrape_loop G s (wire_of bs Silent) out st = None"
  using ReadString_Silent [OF assms] by (subst Scrape_loop.simps) simp

lemma Scrape_loop_decided:
  assumes "line l" and "l = EndToken s \<or> (\<exists>e. Scrape_line G s l out = Inl e)"
  shows "Scrape_loop G s (wire_of (l @ bs) r) out st \<noteq> None"
proof -
  have rd: "ReadString (wire_of (l @ bs) r) CHR 0x0A = Some ((l, None), wire_of bs r)"
    using assms(1) by (rule ReadString_line)
  show ?thesis
  proof (cases "Scrape_line G s l out")
    case (Inl p)
    then show ?thesis using rd by (cases p) (simp add: Scrape_loop_step)
  next
    case (Inr out')
    then have "l = EndToken s" using assms(2) by auto
    then show ?thesis using rd Inr by (simp add: Scrape_loop_step)
  qed
qed

text \<open>
  Claim C3, as the code has it. The timeout is an argument of \<open>DialTimeout\<close> only; no
  read is given a deadline, and the loop has no bound on the number of lines. So whether
  \<open>Scrape\<close> returns is decided by what the peer sends. It returns when the connection
  attempt fails; when the stream ends, with whatever error, after finitely many bytes; when
  the first line is not the begin token; and when, after the begin token and lines that
  the loop processes, the end token or a line with a value that does not parse arrives,
  whatever the peer does after that line (it may keep the connection open and send
  nothing more). It does not return when the peer stops sending, with the connection
  open, before the first line is complete, or after the begin token and before the end
  token or a value that does not parse; nor when, after the begin token, the peer
  repeats for ever a line that the loop processes.
\<close>

theorem Scrape_return_cases:
  "(DialTimeout G ''tcp'' (Host s) timeOut = Inl err \<longrightarrow> Scrape G s st \<noteq> None)
   \<and> (DialTimeout G ''tcp'' (Host s) timeOut = Inr (wire_of bytes (Closed e))
        \<longrightarrow> Scrape G s st \<noteq> None)
   \<and> (DialTimeout G ''tcp'' (Host s) timeOut = Inr (wire_of (l @ bs) r)
        \<and> line l \<and> l \<noteq> BeginToken s
        \<longrightarrow> Scrape G s st \<noteq> None)
   \<and> (DialTimeout G ''tcp'' (Host s) timeOut = Inr (wire_of (BeginToken s @ concat ls @ l @ bs) r)
        \<and> line (BeginToken s) \<and> (\<forall>x \<in> set ls. line x \<and> x \<noteq> EndToken s)
        \<and> accumulate G s ls '''' = Inr out \<and> line l
        \<and> (l = EndToken s \<or> (\<exists>e. Scrape_line G s l out = Inl e))
        \<longrightarrow> Scrape G s st \<noteq> None)
   \<and> (DialTimeout G ''tcp'' (Host s) timeOut = Inr (wire_of bs Silent)
        \<and> CHR 0x0A \<notin> set bs
        \<longrightarrow> Scrape G s st = None)
   \<and> (DialTimeout G ''tcp'' (Host s) timeOut = Inr (wire_of (BeginToken s @ concat ls @ bs) Silent)
        \<and> line (BeginToken s) \<and> (\<forall>x \<in> set ls. line x \<and> x \<noteq> EndToken s)
        \<and> accumulate G s ls '''' = Inr out \<and> CHR 0x0A \<notin> set bs
        \<longrightarrow> Scrape G s st = None)
   \<and> (DialTimeout G ''tcp'' (Host s) timeOut = Inr (wire_of (BeginToken s @ concat ls) (repeating l []))
        \<and> line (BeginToken s) \<and> (\<forall>x \<in> set ls. line x \<and> x \<noteq> EndToken s)
        \<and> accumulate G s ls '''' = Inr out \<and> line l \<and> l \<noteq> EndToken s
        \<and> (\<forall>out. \<exists>out'. Scrape_line G s l out = Inr out')
        \<longrightarrow> Scrape G s st = None)"
proof (intro conjI impI)
  assume "DialTimeout G ''tcp'' (Host s) timeOut = Inl err"
  then show "Scrape G s st \<noteq> None"
    by (simp add: Scrape_def)
next
  assume d: "DialTimeout G ''tcp'' (Host s) timeOut = Inr (wire_of bytes (Closed e))"
  show "Scrape G s st \<noteq> None"
  proof (cases "CHR 0x0A \<in> set bytes")
    case False
    then show ?thesis
      using d by (simp add: Scrape_def ReadString_finite)
  next
    case True
    then show ?thesis
      using d Scrape_loop_returns [of G s "tl (dropWhile (\<lambda>c. c \<noteq> CHR 0x0A) bytes)" e "''''" st]
      by (simp add: Scrape_def ReadString_finite)
  qed
next
  assume h: "DialTimeout G ''tcp'' (Host s) timeOut = Inr (wire_of (l @ bs) r)
               \<and> line l \<and> l \<noteq> BeginToken s"
  then have "ReadString (wire_of (l @ bs) r) CHR 0x0A = Some ((l, None), wire_of bs r)"
    by (simp add: ReadString_line)
  then show "Scrape G s st \<noteq> None"
    using h by (simp add: Scrape_def)
next
  assume h: "DialTimeout G ''tcp'' (Host s) timeOut = Inr (wire_of (BeginToken s @ concat ls @ l @ bs) r)
        \<and> line (BeginToken s) \<and> (\<forall>x \<in> set ls. line x \<and> x \<noteq> EndToken s)
        \<and> accumulate G s ls '''' = Inr out \<and> line l
        \<and> (l = EndToken s \<or> (\<exists>e. Scrape_line G s l out = Inl e))"
  have "Scrape G s st = Scrape_loop G s (wire_of (concat ls @ l @ bs) r) '''' st"
    using h by (intro Scrape_begin) simp_all
  also have "\<dots> = Scrape_loop G s (wire_of (l @ bs) r) out st"
    using h by (intro Scrape_loop_lines) simp_all
  finally show "Scrape G s st \<noteq> None"
    using h Scrape_loop_decided [of l s G out bs r st] by simp
next
  assume h: "DialTimeout G ''tcp'' (Host s) timeOut = Inr (wire_of bs Silent) \<and> CHR 0x0A \<notin> set bs"
  then show "Scrape G s st = None"
    using ReadString_Silent [of "CHR 0x0A" bs] by (simp add: Scrape_def)
next
  assume h: "DialTimeout G ''tcp'' (Host s) timeOut = Inr (wire_of (BeginToken s @ concat ls @ bs) Silent)
        \<and> line (BeginToken s) \<and> (\<forall>x \<in> set ls. line x \<and> x \<noteq> EndToken s)
        \<and> accumulate G s ls '''' = Inr out \<and> CHR 0x0A \<notin> set bs"
  have "Scrape G s st = Scrape_loop G s (wire_of (concat ls @ bs) Silent) '''' st"
    using h by (intro Scrape_begin) simp_all
  also have "\<dots> = Scrape_loop G s (wire_of bs Silent) out st"
    using h by (intro Scrape_loop_lines) simp_all
  also have "\<dots> = None"
    using h by (intro Scrape_loop_Silent) simp
  finally show "Scrape G s st = None" .
next
  assume h: "DialTimeout G ''tcp'' (Host s) timeOut = Inr (wire_of (BeginToken s @ concat ls) (repeating l []))
        \<and> line (BeginToken s) \<and> (\<forall>x \<in> set ls. line x \<and> x \<noteq> EndToken s)
        \<and> accumulate G s ls '''' = Inr out \<and> line l \<and> l \<noteq> EndToken s
        \<and> (\<forall>out. \<exists>out'. Scrape_line G s l out = Inr out')"
  have "Scrape G s st = Scrape_loop G s (wire_of (concat ls @ []) (repeating l [])) '''' st"
    using h by (intro Scrape_begin) simp_all
  also have "\<dots> = Scrape_loop G s (wire_of [] (repeating l [])) out st"
    using h by (intro Scrape_loop_lines) simp_all
  also have "\<dots> = None"
    using h Scrape_loop_repeating [of l s G out st] by simp
  finally show "Scrape G s st = None" .
qed

theorem Scrape_return_cases_witness:
  \<open>Scrape (golib_model refusing) dev_sensor world0 \<noteq> None
   \<and> Scrape (golib_model (serving ''BEGIN LIST VAR dev\<newline>VAR dev ups.load'')) dev_sensor world0 \<noteq> None
   \<and> Scrape (golib_model (holding ''ERR UNKNOWN-UPS\<newline>'')) dev_sensor world0 \<noteq> None
   \<and> Scrape (golib_model (holding ''BEGIN LIST VAR dev\<newline>VAR dev ups.load "14"\<newline>END LIST VAR dev\<newline>''))
         dev_sensor world0 \<noteq> None
   \<and> Scrape (golib_model (holding ''BEGIN LIST VAR dev'')) dev_sensor world0 = None
   \<and> Scrape (golib_model (holding ''BEGIN LIST VAR dev\<newline>VAR dev ups.load "14"\<newline>END LIST''))
         dev_sensor world0 = None
   \<and> Scrape (golib_model chattering) dev_sensor world0 = None\<close>
proof -
  let ?l = \<open>''VAR dev ups.load "14"\<newline>''\<close>
  let ?o = \<open>''upsc_ups_load{ups="dev"} 14.00\<newline>''\<close>
  have b: "line (BeginToken dev_sensor)"
    by (simp add: line_def dev_sensor_def)
  have ls: "\<forall>x \<in> set [?l]. line x \<and> x \<noteq> EndToken dev_sensor"
    by (simp add: line_def dev_sensor_def)
  have m: \<open>FindStringSubmatch_model (UpscRe ''dev'') ?l = [''VAR dev ups.load "14"'', ''ups.load'', ''14'']\<close>
    by code_simp
  have p: "ParseFloat_model ''14'' = Inr (Num 14)"
    by code_simp
  have "fmt_2f (Num 14) = ''14.00''"
    by code_simp
  with m p have acc: "accumulate (golib_model net) dev_sensor [?l] '''' = Inr ?o" for net
    by (simp add: Scrape_line_def golib_model_def dev_sensor_def upscVarFloat_def
        sensorStringMapping_def del: fmt_2f.simps)
  have 1: "Scrape (golib_model refusing) dev_sensor world0 \<noteq> None"
    using Scrape_return_cases
      [where G = "golib_model refusing" and s = dev_sensor and st = world0
         and err = "''dial tcp 127.0.0.1:3493: connect: connection refused''"]
    by (simp add: golib_model_def refusing_def)
  have 2: "Scrape (golib_model (serving ''BEGIN LIST VAR dev\<newline>VAR dev ups.load'')) dev_sensor world0 \<noteq> None"
    using Scrape_return_cases
      [where G = "golib_model (serving ''BEGIN LIST VAR dev\<newline>VAR dev ups.load'')"
         and s = dev_sensor and st = world0
         and bytes = "''BEGIN LIST VAR dev\<newline>VAR dev ups.load''" and e = "''EOF''"]
    by (simp add: golib_model_def serving_def)
  have 3: "Scrape (golib_model (holding ''ERR UNKNOWN-UPS\<newline>'')) dev_sensor world0 \<noteq> None"
  proof -
    have "DialTimeout (golib_model (holding ''ERR UNKNOWN-UPS\<newline>'')) ''tcp'' (Host dev_sensor) timeOut
            = Inr (wire_of (''ERR UNKNOWN-UPS\<newline>'' @ []) Silent)
          \<and> line ''ERR UNKNOWN-UPS\<newline>'' \<and> ''ERR UNKNOWN-UPS\<newline>'' \<noteq> BeginToken dev_sensor"
      by (simp add: golib_model_def holding_def line_def dev_sensor_def)
    then show ?thesis
      using Scrape_return_cases
        [where G = "golib_model (holding ''ERR UNKNOWN-UPS\<newline>'')" and s = dev_sensor and st = world0
           and l = "''ERR UNKNOWN-UPS\<newline>''" and bs = "[]" and r = Silent]
      by blast
  qed
  have 4: \<open>Scrape (golib_model (holding ''BEGIN LIST VAR dev\<newline>VAR dev ups.load "14"\<newline>END LIST VAR dev\<newline>''))
         dev_sensor world0 \<noteq> None\<close>
  proof -
    let ?G = \<open>golib_model (holding ''BEGIN LIST VAR dev\<newline>VAR dev ups.load "14"\<newline>END LIST VAR dev\<newline>'')\<close>
    have "DialTimeout ?G ''tcp'' (Host dev_sensor) timeOut
            = Inr (wire_of (BeginToken dev_sensor @ concat [?l] @ EndToken dev_sensor @ []) Silent)"
      by (simp add: golib_model_def holding_def dev_sensor_def)
    moreover have "line (EndToken dev_sensor)"
      by (simp add: line_def dev_sensor_def)
    ultimately show ?thesis
      using b ls acc [of "holding ''BEGIN LIST VAR dev\<newline>VAR dev ups.load \"14\"\<newline>END LIST VAR dev\<newline>''"]
        Scrape_return_cases
        [where G = ?G and s = dev_sensor and st = world0 and ls = "[?l]" and out = ?o
           and l = "EndToken dev_sensor" and bs = "[]" and r = Silent]
      by blast
  qed
  have 5: "Scrape (golib_model (holding ''BEGIN LIST VAR dev'')) dev_sensor world0 = None"
  proof -
    have "DialTimeout (golib_model (holding ''BEGIN LIST VAR dev'')) ''tcp'' (Host dev_sensor) timeOut
            = Inr (wire_of ''BEGIN LIST VAR dev'' Silent)
          \<and> CHR 0x0A \<notin> set ''BEGIN LIST VAR dev''"
      by (simp add: golib_model_def holding_def)
    then show ?thesis
      using Scrape_return_cases
        [where G = "golib_model (holding ''BEGIN LIST VAR dev'')" and s = dev_sensor and st = world0
           and bs = "''BEGIN LIST VAR dev''"]
      by blast
  qed
  have 6: \<open>Scrape (golib_model (holding ''BEGIN LIST VAR dev\<newline>VAR dev ups.load "14"\<newline>END LIST''))
         dev_sensor world0 = None\<close>
  proof -
    let ?G = \<open>golib_model (holding ''BEGIN LIST VAR dev\<newline>VAR dev ups.load "14"\<newline>END LIST'')\<close>
    have "DialTimeout ?G ''tcp'' (Host dev_sensor) timeOut
            = Inr (wire_of (BeginToken dev_sensor @ concat [?l] @ ''END LIST'') Silent)
          \<and> CHR 0x0A \<notin> set ''END LIST''"
      by (simp add: golib_model_def holding_def dev_sensor_def)
    then show ?thesis
      using b ls acc [of "holding ''BEGIN LIST VAR dev\<newline>VAR dev ups.load \"14\"\<newline>END LIST''"]
        Scrape_return_cases
        [where G = ?G and s = dev_sensor and st = world0 and ls = "[?l]" and out = ?o
           and bs = "''END LIST''"]
      by blast
  qed
  have 7: "Scrape (golib_model chattering) dev_sensor world0 = None"
  proof -
    have d: "DialTimeout (golib_model chattering) ''tcp'' (Host dev_sensor) timeOut
            = Inr (wire_of (BeginToken dev_sensor @ concat []) (repeating ?l []))"
      by (simp add: golib_model_def chattering_def dev_sensor_def)
    have e: "\<forall>x \<in> set ([] :: string list). line x \<and> x \<noteq> EndToken dev_sensor"
      by simp
    have a: "accumulate (golib_model chattering) dev_sensor [] [] = Inr []"
      by simp
    have l: "line ?l" "?l \<noteq> EndToken dev_sensor"
      by (simp_all add: line_def dev_sensor_def)
    have "FindStringSubmatch (golib_model chattering) (Re dev_sensor) ?l
            = FindStringSubmatch_model (UpscRe ''dev'') ?l"
      and "ParseFloat (golib_model chattering) ''14'' = ParseFloat_model ''14''"
      by (simp_all add: golib_model_def dev_sensor_def)
    then have s: "\<forall>out. \<exists>out'. Scrape_line (golib_model chattering) dev_sensor ?l out = Inr out'"
      using m p by (simp add: Scrape_line_def upscVarFloat_def sensorStringMapping_def
          del: fmt_2f.simps)
    note last_case = Scrape_return_cases
        [where G = "golib_model chattering" and s = dev_sensor and st = world0
           and ls = "[]" and out = "[]" and l = ?l,
         THEN conjunct2, THEN conjunct2, THEN conjunct2, THEN conjunct2, THEN conjunct2,
         THEN conjunct2, THEN mp]
    show ?thesis
      by (rule last_case) (intro conjI d b e a l s)
  qed
  from 1 2 3 4 5 6 7 show ?thesis by blast
qed

text \<open>
  Claim C3, as it is stated, fails. On a peer that accepts the connection and stays
  silent the first read does not return, and on a peer that goes on sending lines of the
  list without the end token every read returns and the loop goes on for ever: in both
  runs \<open>Scrape\<close> does not return.
\<close>

theorem Scrape_does_not_return:
  "Scrape (golib_model silent) dev_sensor world0 = None
   \<and> Scrape (golib_model chattering) dev_sensor world0 = None"
proof
  show "Scrape (golib_model silent) dev_sensor world0 = None"
    using ReadString_Silent [of "CHR 0x0A" "[]"]
    by (simp add: Scrape_def golib_model_def silent_def)
next
  let ?l = \<open>''VAR dev ups.load "14"\<newline>''\<close>
  have d: "DialTimeout (golib_model chattering) ''tcp'' (Host dev_sensor) timeOut
             = Inr (wire_of (BeginToken dev_sensor @ []) (repeating ?l []))"
    by (simp add: golib_model_def chattering_def dev_sensor_def)
  have b: "line (BeginToken dev_sensor)"
    by (simp add: line_def dev_sensor_def)
  have l: "line ?l" "?l \<noteq> EndToken dev_sensor"
    by (simp_all add: line_def dev_sensor_def)
  have \<open>FindStringSubmatch_model (UpscRe ''dev'') ?l = [''VAR dev ups.load "14"'', ''ups.load'', ''14'']\<close>
    by code_simp
  then have m: \<open>FindStringSubmatch (golib_model chattering) (Re dev_sensor) ?l
             = [''VAR dev ups.load "14"'', ''ups.load'', ''14'']\<close>
    by (simp add: golib_model_def dev_sensor_def)
  have "ParseFloat_model ''14'' = Inr (Num 14)"
    by code_simp
  then have p: "ParseFloat (golib_model chattering) ''14'' = Inr (Num 14)"
    by (simp add: golib_model_def)
  have s: "\<And>out. \<exists>out'. Scrape_line (golib_model chattering) dev_sensor ?l out = Inr out'"
    using m p by (simp add: Scrape_line_def upscVarFloat_def sensorStringMapping_def del: fmt_2f.simps)
  have "Scrape (golib_model chattering) dev_sensor world0
          = Scrape_loop (golib_model chattering) dev_sensor (wire_of [] (repeating ?l [])) '''' world0"
    using d b by (rule Scrape_begin)
  also have "\<dots> = None"
    using Scrape_loop_repeating [OF l s] by simp
  finally show "Scrape (golib_model chattering) dev_sensor world0 = None" .
qed

end
